theory Spec2Isabelle
  imports Main "HOL-Library.Multiset"
begin

section \<open>Data model of openassessment/workflow/models.py\<close>

text \<open>
  The requirements of one assessment step are an opaque dictionary that only the
  assessment modules read; the literal \<open>{}\<close> is the empty list. The argument
  \<open>assessment_requirements\<close> is either Python's \<open>None\<close> or a dictionary from
  step names to such requirements.
\<close>

type_synonym reqs = "(string \<times> int) list"

type_synonym requirements = "(string \<rightharpoonup> reqs) option"

text \<open>Every exception that can travel through the module is a value of this type.\<close>

datatype error =
    SubmissionNotFoundError
  | SubmissionRequestError
  | SubmissionInternalError
  | DatabaseError
  | DoesNotExist
  | AssessmentApiLoadError string string
  | AttributeError
  | ImportError
  | ValueError
  | TypeError
  | ModuleError string

record score =
  points_earned :: int
  points_possible :: int

text \<open>
  An assessment module, as \<open>importlib.import_module\<close> returns it. Each function the
  workflow looks up with \<open>getattr\<close> is an optional attribute; a function either
  returns or raises. The first argument is always the submission UUID.
\<close>

record assessment_api =
  on_init :: "(string \<Rightarrow> reqs \<Rightarrow> error + unit) option"
  on_start :: "(string \<Rightarrow> error + unit) option"
  submitter_is_finished :: "(string \<Rightarrow> reqs option \<Rightarrow> error + bool) option"
  assessment_is_finished :: "(string \<Rightarrow> reqs option \<Rightarrow> error + bool) option"
  get_score :: "(string \<Rightarrow> reqs option \<Rightarrow> error + score option) option"

record submission =
  sub_course_id :: string
  sub_item_id :: string

text \<open>The storage operations of the module; each one may fail with a \<open>DatabaseError\<close>.\<close>

datatype db_op =
    Select_steps
  | Insert_step string
  | Update_step nat
  | Update_workflow
  | Insert_workflow string
  | Select_workflow string

text \<open>
  Everything the module reads from outside itself during one call: the Django settings
  \<open>ORA2_ASSESSMENTS\<close> and \<open>ORA2_ASSESSMENT_SCORE_PRIORITY\<close>, the module loader, the
  submissions API, and which storage operations fail. \<open>AssessmentWorkflow.STEPS\<close> is
  the key set of \<open>ORA2_ASSESSMENTS\<close>. \<open>import_module\<close> gives the module of a path
  that loads; for a path that does not load, \<open>import_failure\<close> is the exception that
  \<open>importlib.import_module\<close> raises.
\<close>

record env =
  ORA2_ASSESSMENTS :: "string \<rightharpoonup> string"
  ASSESSMENT_SCORE_PRIORITY :: "string list"
  import_module :: "string \<Rightarrow> assessment_api option"
  import_failure :: "string \<Rightarrow> error"
  sub_api_get_submission_and_student :: "string \<Rightarrow> error + submission"
  sub_api_set_score :: "string \<Rightarrow> int \<Rightarrow> int \<Rightarrow> error + unit"
  db_fault :: "db_op \<Rightarrow> bool"

text \<open>
  The observable effects on the collaborators: every call of a module function or of
  the submissions API, and every log record, in the order they happen. The storage
  operations attempted are kept in a list of their own.
\<close>

datatype log_level = Info | Warning | Error | Exception

datatype log_msg =
    No_assessment_configured string
  | Status_updated string string
  | Signal_without_uuid
  | Could_not_retrieve_workflow string
  | Database_error_occurred string
  | Unexpected_error_occurred string

datatype event =
    Call_on_init string string reqs
  | Call_on_start string string
  | Call_submitter_is_finished string string "reqs option"
  | Call_assessment_is_finished string string "reqs option"
  | Call_get_score string string "reqs option"
  | Call_get_submission_and_student string
  | Call_set_score string int int
  | Log log_level log_msg

text \<open>
  \<open>AssessmentWorkflowStep\<close>: the fields of one row. A model instance is a row
  together with its primary key, the position of the row in the table.
\<close>

record step =
  name :: string
  submitter_completed_at :: "nat option"
  assessment_completed_at :: "nat option"
  order_num :: nat

text \<open>\<open>AssessmentWorkflow\<close>: the in-memory model instance.\<close>

record workflow =
  submission_uuid :: string
  status :: string
  course_id :: string
  item_id :: string

text \<open>A stored workflow row with the rows of its \<open>steps\<close> relation.\<close>

record wf_row =
  row_status :: string
  row_course_id :: string
  row_item_id :: string
  row_steps :: "step list"

record effects =
  clock :: nat
  trace :: "event list"
  db_log :: "db_op list"

text \<open>
  The state a method of one workflow instance works on: the instance \<open>self\<close>, the
  stored status column of its row, the stored rows of its steps, the clock and the trace.
\<close>

record wstate = effects +
  self :: workflow
  stored_status :: string
  steps :: "step list"

text \<open>The state of the class-level entry points: the whole workflow table.\<close>

record state = effects +
  workflows :: "string \<rightharpoonup> wf_row"

record step_status =
  complete :: bool
  graded :: bool

section \<open>Exceptions and state\<close>

type_synonym ('s, 'a) prog = "'s \<Rightarrow> (error + 'a) \<times> 's"

definition ret :: "'a \<Rightarrow> ('s, 'a) prog" where
  "ret x = (\<lambda>s. (Inr x, s))"

definition raise :: "error \<Rightarrow> ('s, 'a) prog" where
  "raise e = (\<lambda>s. (Inl e, s))"

definition bind :: "('s, 'a) prog \<Rightarrow> ('a \<Rightarrow> ('s, 'b) prog) \<Rightarrow> ('s, 'b) prog" where
  "bind m f = (\<lambda>s. case m s of (Inl e, s') \<Rightarrow> (Inl e, s') | (Inr x, s') \<Rightarrow> f x s')"

definition try_except :: "('s, 'a) prog \<Rightarrow> (error \<Rightarrow> ('s, 'a) prog) \<Rightarrow> ('s, 'a) prog" where
  "try_except m h = (\<lambda>s. case m s of (Inl e, s') \<Rightarrow> h e s' | (Inr x, s') \<Rightarrow> (Inr x, s'))"

definition lift :: "error + 'a \<Rightarrow> ('s, 'a) prog" where
  "lift r = (\<lambda>s. (r, s))"

definition emit :: "event \<Rightarrow> ('z effects_scheme, unit) prog" where
  "emit ev = (\<lambda>s. (Inr (), s\<lparr>trace := trace s @ [ev]\<rparr>))"

definition call :: "event \<Rightarrow> error + 'a \<Rightarrow> ('z effects_scheme, 'a) prog" where
  "call ev r = bind (emit ev) (\<lambda>_. lift r)"

definition now :: "('z effects_scheme, nat) prog" where
  "now = (\<lambda>s. (Inr (clock s), s\<lparr>clock := Suc (clock s)\<rparr>))"

definition dict_get :: "('k \<rightharpoonup> 'v) \<Rightarrow> 'k \<Rightarrow> 'v \<Rightarrow> 'v" where
  "dict_get d k dflt = (case d k of None \<Rightarrow> dflt | Some v \<Rightarrow> v)"

definition getattr :: "'m option \<Rightarrow> ('m \<Rightarrow> 'f option) \<Rightarrow> 'f option" where
  "getattr obj attr = (case obj of None \<Rightarrow> None | Some m \<Rightarrow> attr m)"

section \<open>Storage\<close>

definition db_guard :: "env \<Rightarrow> db_op \<Rightarrow> ('z effects_scheme, unit) prog" where
  "db_guard e op =
     (\<lambda>s. (if db_fault e op then Inl DatabaseError else Inr (), s\<lparr>db_log := db_log s @ [op]\<rparr>))"

text \<open>
  A query of the steps relation returns the model instances in the order of
  \<open>Meta.ordering\<close>, that is by \<open>order_num\<close>; rows with equal \<open>order_num\<close> come in the
  order of their primary keys.
\<close>

definition select_steps :: "env \<Rightarrow> (step \<Rightarrow> bool) \<Rightarrow> (wstate, (nat \<times> step) list) prog" where
  "select_steps e p =
     bind (db_guard e Select_steps)
       (\<lambda>_ s. (Inr (sort_key (\<lambda>x. order_num (snd x)) (filter (\<lambda>x. p (snd x)) (enumerate 0 (steps s)))), s))"

definition insert_step :: "env \<Rightarrow> step \<Rightarrow> (wstate, nat \<times> step) prog" where
  "insert_step e st =
     bind (db_guard e (Insert_step (name st)))
       (\<lambda>_ s. (Inr (length (steps s), st), s\<lparr>steps := steps s @ [st]\<rparr>))"

definition save_step :: "env \<Rightarrow> nat \<times> step \<Rightarrow> (wstate, unit) prog" where
  "save_step e obj =
     bind (db_guard e (Update_step (fst obj)))
       (\<lambda>_ s. (Inr (), s\<lparr>steps := (steps s)[fst obj := snd obj]\<rparr>))"

definition save_workflow :: "env \<Rightarrow> (wstate, unit) prog" where
  "save_workflow e =
     bind (db_guard e Update_workflow)
       (\<lambda>_ s. (Inr (), s\<lparr>stored_status := status (self s)\<rparr>))"

definition set_status :: "string \<Rightarrow> (wstate, unit) prog" where
  "set_status v = (\<lambda>s. (Inr (), s\<lparr>self := (self s)\<lparr>status := v\<rparr>\<rparr>))"

section \<open>AssessmentWorkflowStep\<close>

definition is_submitter_complete :: "step \<Rightarrow> bool" where
  "is_submitter_complete st = (submitter_completed_at st \<noteq> None)"

definition is_assessment_complete :: "step \<Rightarrow> bool" where
  "is_assessment_complete st = (assessment_completed_at st \<noteq> None)"

definition api :: "env \<Rightarrow> step \<Rightarrow> ('z effects_scheme, assessment_api option) prog" where
  "api e st =
     (case ORA2_ASSESSMENTS e (name st) of
        Some api_path \<Rightarrow>
          (case import_module e api_path of
             Some m \<Rightarrow> ret (Some m)
           | None \<Rightarrow>
               if import_failure e api_path = ImportError \<or> import_failure e api_path = ValueError
               then raise (AssessmentApiLoadError (name st) api_path)
               else raise (import_failure e api_path))
      | None \<Rightarrow>
          bind (emit (Log Warning (No_assessment_configured (name st)))) (\<lambda>_. ret None))"

text \<open>
  A completion test found with \<open>getattr\<close> is called on the module; the default
  \<open>lambda\<close> answers \<open>True\<close> and calls nothing.
\<close>

definition finished :: "(string \<Rightarrow> reqs option \<Rightarrow> error + bool) option \<Rightarrow> event \<Rightarrow> string \<Rightarrow> reqs option
    \<Rightarrow> ('z effects_scheme, bool) prog" where
  "finished f ev uuid r = (case f of None \<Rightarrow> ret True | Some g \<Rightarrow> call ev (g uuid r))"

definition step_reqs_of :: "requirements \<Rightarrow> string \<Rightarrow> reqs option" where
  "step_reqs_of assessment_requirements n =
     (case assessment_requirements of None \<Rightarrow> None | Some d \<Rightarrow> Some (dict_get d n []))"

text \<open>
  The two tests of \<open>update\<close>. Each takes the instance as it is so far and returns it
  with \<open>step_changed\<close>; a timestamp that is set is not tested again.
\<close>

definition check_submitter :: "(string \<Rightarrow> reqs option \<Rightarrow> error + bool) option \<Rightarrow> string \<Rightarrow> reqs option
    \<Rightarrow> step \<Rightarrow> ('z effects_scheme, step \<times> bool) prog" where
  "check_submitter submitter_finished uuid step_reqs st =
     (if \<not> is_submitter_complete st
      then bind (finished submitter_finished
                   (Call_submitter_is_finished (name st) uuid step_reqs) uuid step_reqs)
             (\<lambda>b. if b then bind now (\<lambda>t. ret (st\<lparr>submitter_completed_at := Some t\<rparr>, True))
                   else ret (st, False))
      else ret (st, False))"

definition check_assessment :: "(string \<Rightarrow> reqs option \<Rightarrow> error + bool) option \<Rightarrow> string \<Rightarrow> reqs option
    \<Rightarrow> step \<times> bool \<Rightarrow> ('z effects_scheme, step \<times> bool) prog" where
  "check_assessment assessment_finished uuid step_reqs r1 =
     (if \<not> is_assessment_complete (fst r1)
      then bind (finished assessment_finished
                   (Call_assessment_is_finished (name (fst r1)) uuid step_reqs) uuid step_reqs)
             (\<lambda>b. if b then bind now (\<lambda>t. ret ((fst r1)\<lparr>assessment_completed_at := Some t\<rparr>, True))
                   else ret (fst r1, snd r1))
      else ret (fst r1, snd r1))"

definition update :: "env \<Rightarrow> string \<Rightarrow> requirements \<Rightarrow> nat \<times> step \<Rightarrow> (wstate, nat \<times> step) prog" where
  "update e uuid assessment_requirements obj =
     (let pk = fst obj; st = snd obj;
          step_reqs = step_reqs_of assessment_requirements (name st)
      in
      bind (api e st) (\<lambda>a1.
      bind (api e st) (\<lambda>a2.
      let submitter_finished = getattr a1 submitter_is_finished;
          assessment_finished = getattr a2 assessment_is_finished
      in
      bind (check_submitter submitter_finished uuid step_reqs st) (\<lambda>r1.
      bind (check_assessment assessment_finished uuid step_reqs r1) (\<lambda>r2.
      bind (if snd r2 then save_step e (pk, fst r2) else ret ()) (\<lambda>_.
      ret (pk, fst r2)))))))"

section \<open>AssessmentWorkflow\<close>

definition recognized :: "env \<Rightarrow> step \<Rightarrow> bool" where
  "recognized e st = (ORA2_ASSESSMENTS e (name st) \<noteq> None)"

text \<open>\<open>self.STATUS.peer\<close>: an attribute of \<open>Choices\<close> exists for the configured names only.\<close>

definition STATUS :: "env \<Rightarrow> string \<Rightarrow> ('s, string) prog" where
  "STATUS e n = (if ORA2_ASSESSMENTS e n \<noteq> None \<or> n = ''waiting'' \<or> n = ''done''
                 then ret n else raise AttributeError)"

definition new_step :: "string \<Rightarrow> nat \<Rightarrow> step" where
  "new_step n i = \<lparr>name = n, submitter_completed_at = None, assessment_completed_at = None,
                   order_num = i\<rparr>"

definition get_steps :: "env \<Rightarrow> (wstate, (nat \<times> step) list) prog" where
  "get_steps e =
     bind (select_steps e (recognized e)) (\<lambda>found.
       if found = [] then
         bind (STATUS e ''peer'') (\<lambda>peer.
         bind (STATUS e ''self'') (\<lambda>self_name.
         bind (insert_step e (new_step peer 0)) (\<lambda>_.
         bind (insert_step e (new_step self_name 1)) (\<lambda>_.
         select_steps e (\<lambda>_. True)))))
       else ret found)"

fun update_steps :: "env \<Rightarrow> string \<Rightarrow> requirements \<Rightarrow> (nat \<times> step) list
    \<Rightarrow> (wstate, (nat \<times> step) list) prog" where
  "update_steps e uuid rq [] = ret []"
| "update_steps e uuid rq (x # xs) =
     bind (update e uuid rq x) (\<lambda>x'.
     bind (update_steps e uuid rq xs) (\<lambda>xs'. ret (x' # xs')))"

text \<open>The dictionary \<open>{step.name: step for step in steps}\<close>: a later step wins.\<close>

definition step_for_name :: "(nat \<times> step) list \<Rightarrow> (string \<rightharpoonup> nat \<times> step)" where
  "step_for_name xs = fold (\<lambda>x d. d(name (snd x) \<mapsto> x)) xs Map.empty"

definition first_incomplete :: "(nat \<times> step) list \<Rightarrow> string" where
  "first_incomplete xs =
     (case List.find (\<lambda>x. submitter_completed_at (snd x) = None) xs of
        Some x \<Rightarrow> name (snd x)
      | None \<Rightarrow> ''waiting'')"

definition notify_start :: "env \<Rightarrow> string \<Rightarrow> (nat \<times> step) option \<Rightarrow> ('z effects_scheme, unit) prog" where
  "notify_start e uuid target =
     (case target of
        None \<Rightarrow> ret ()
      | Some x \<Rightarrow>
          bind (api e (snd x)) (\<lambda>a.
            case getattr a on_start of
              None \<Rightarrow> ret ()
            | Some f \<Rightarrow> call (Call_on_start (name (snd x)) uuid) (f uuid)))"

fun find_score :: "env \<Rightarrow> string \<Rightarrow> requirements \<Rightarrow> (string \<rightharpoonup> nat \<times> step) \<Rightarrow> string list
    \<Rightarrow> ('z effects_scheme, score option) prog" where
  "find_score e uuid rq d [] = ret None"
| "find_score e uuid rq d (n # ns) =
     (case d n of
        None \<Rightarrow> find_score e uuid rq d ns
      | Some x \<Rightarrow>
          bind (api e (snd x)) (\<lambda>a.
            case getattr a get_score of
              None \<Rightarrow> find_score e uuid rq d ns
            | Some f \<Rightarrow> call (Call_get_score n uuid (step_reqs_of rq n)) (f uuid (step_reqs_of rq n))))"

definition set_score :: "env \<Rightarrow> string \<Rightarrow> score \<Rightarrow> ('z effects_scheme, unit) prog" where
  "set_score e uuid sc =
     call (Call_set_score uuid (points_earned sc) (points_possible sc))
       (sub_api_set_score e uuid (points_earned sc) (points_possible sc))"

definition try_score :: "env \<Rightarrow> string \<Rightarrow> requirements \<Rightarrow> (nat \<times> step) list \<Rightarrow> string
    \<Rightarrow> ('z effects_scheme, string) prog" where
  "try_score e uuid rq xs new_status =
     (if new_status = ''waiting'' \<and> list_all (\<lambda>x. assessment_completed_at (snd x) \<noteq> None) xs
      then bind (find_score e uuid rq (step_for_name xs) (ASSESSMENT_SCORE_PRIORITY e)) (\<lambda>sc.
             case sc of
               None \<Rightarrow> ret new_status
             | Some v \<Rightarrow> bind (set_score e uuid v) (\<lambda>_. ret ''done''))
      else ret new_status)"

definition store_status :: "env \<Rightarrow> string \<Rightarrow> (wstate, unit) prog" where
  "store_status e new_status =
     (\<lambda>s. if status (self s) \<noteq> new_status
          then bind (set_status new_status) (\<lambda>_.
               bind (save_workflow e) (\<lambda>_.
               emit (Log Info (Status_updated (submission_uuid (self s)) new_status)))) s
          else ret () s)"

definition update_from_assessments :: "env \<Rightarrow> requirements \<Rightarrow> (wstate, unit) prog" where
  "update_from_assessments e assessment_requirements =
     (\<lambda>s. let uuid = submission_uuid (self s) in
          if status (self s) = ''done'' then ret () s
          else
            bind (get_steps e) (\<lambda>fetched.
            bind (update_steps e uuid assessment_requirements fetched) (\<lambda>xs.
            bind (notify_start e uuid (step_for_name xs (first_incomplete xs))) (\<lambda>_.
            bind (try_score e uuid assessment_requirements xs (first_incomplete xs)) (\<lambda>new_status.
            store_status e new_status)))) s)"

text \<open>\<open>assessment_requirements.get(step.name, {})\<close> raises on \<open>None\<close>.\<close>

definition requirements_get :: "requirements \<Rightarrow> string \<Rightarrow> ('s, reqs) prog" where
  "requirements_get assessment_requirements n =
     (case assessment_requirements of
        None \<Rightarrow> raise AttributeError
      | Some d \<Rightarrow> ret (dict_get d n []))"

fun status_entries :: "env \<Rightarrow> string \<Rightarrow> requirements \<Rightarrow> (nat \<times> step) list
    \<Rightarrow> (string \<rightharpoonup> step_status) \<Rightarrow> ('z effects_scheme, string \<rightharpoonup> step_status) prog" where
  "status_entries e uuid rq [] status_dict = ret status_dict"
| "status_entries e uuid rq (x # xs) status_dict =
     bind (api e (snd x)) (\<lambda>a.
       case a of
         None \<Rightarrow> status_entries e uuid rq xs status_dict
       | Some m \<Rightarrow>
           bind (requirements_get rq (name (snd x))) (\<lambda>r1.
           bind (finished (submitter_is_finished m)
                   (Call_submitter_is_finished (name (snd x)) uuid (Some r1)) uuid (Some r1)) (\<lambda>c.
           bind (requirements_get rq (name (snd x))) (\<lambda>r2.
           bind (finished (assessment_is_finished m)
                   (Call_assessment_is_finished (name (snd x)) uuid (Some r2)) uuid (Some r2)) (\<lambda>g.
           status_entries e uuid rq xs
             (status_dict(name (snd x) \<mapsto> \<lparr>complete = c, graded = g\<rparr>)))))))"

definition status_details :: "env \<Rightarrow> requirements \<Rightarrow> (wstate, string \<rightharpoonup> step_status) prog" where
  "status_details e assessment_requirements =
     (\<lambda>s. bind (get_steps e) (\<lambda>xs.
            status_entries e (submission_uuid (self s)) assessment_requirements xs Map.empty) s)"

section \<open>Class-level entry points\<close>

definition instance_of :: "string \<Rightarrow> wf_row \<Rightarrow> workflow" where
  "instance_of uuid r =
     \<lparr>submission_uuid = uuid, status = row_status r, course_id = row_course_id r,
      item_id = row_item_id r\<rparr>"

text \<open>
  A method of the instance \<open>w\<close> runs against its row \<open>r\<close>; what it stored is written to
  the table whether it returns or raises.
\<close>

definition with_row :: "workflow \<Rightarrow> wf_row \<Rightarrow> (wstate, 'a) prog \<Rightarrow> (state, 'a \<times> workflow) prog" where
  "with_row w r m =
     (\<lambda>s. case m \<lparr>clock = clock s, trace = trace s, db_log = db_log s, self = w,
                   stored_status = row_status r, steps = row_steps r\<rparr> of
            (res, s') \<Rightarrow>
              ((case res of Inl err \<Rightarrow> Inl err | Inr x \<Rightarrow> Inr (x, self s')),
               s\<lparr>clock := clock s', trace := trace s', db_log := db_log s',
                 workflows := (workflows s)(submission_uuid w \<mapsto>
                   r\<lparr>row_status := stored_status s', row_steps := steps s'\<rparr>)\<rparr>))"

text \<open>\<open>cls.objects.create\<close>: the column \<open>submission_uuid\<close> is unique.\<close>

definition objects_create :: "env \<Rightarrow> string \<Rightarrow> submission \<Rightarrow> (state, workflow \<times> wf_row) prog" where
  "objects_create e uuid submission_dict =
     bind (db_guard e (Insert_workflow uuid)) (\<lambda>_ s.
       if workflows s uuid \<noteq> None then (Inl DatabaseError, s)
       else
         let r = \<lparr>row_status = ''waiting'', row_course_id = sub_course_id submission_dict,
                  row_item_id = sub_item_id submission_dict, row_steps = []\<rparr>
         in (Inr (instance_of uuid r, r), s\<lparr>workflows := (workflows s)(uuid \<mapsto> r)\<rparr>))"

definition objects_get :: "env \<Rightarrow> string \<Rightarrow> (state, workflow \<times> wf_row) prog" where
  "objects_get e uuid =
     bind (db_guard e (Select_workflow uuid)) (\<lambda>_ s.
       case workflows s uuid of
         None \<Rightarrow> (Inl DoesNotExist, s)
       | Some r \<Rightarrow> (Inr (instance_of uuid r, r), s))"

text \<open>\<open>@transaction.commit_on_success\<close>: an exception rolls the stored data back.\<close>

definition commit_on_success :: "(state, 'a) prog \<Rightarrow> (state, 'a) prog" where
  "commit_on_success f =
     (\<lambda>s. case f s of
            (Inl err, s') \<Rightarrow> (Inl err, s'\<lparr>workflows := workflows s\<rparr>)
          | (Inr x, s') \<Rightarrow> (Inr x, s'))"

fun add_steps :: "env \<Rightarrow> string list \<Rightarrow> nat \<Rightarrow> (wstate, (nat \<times> step) list) prog" where
  "add_steps e [] i = ret []"
| "add_steps e (n # ns) i =
     bind (insert_step e (new_step n i)) (\<lambda>x.
     bind (add_steps e ns (Suc i)) (\<lambda>xs. ret (x # xs)))"

fun init_steps :: "env \<Rightarrow> string \<Rightarrow> (string \<rightharpoonup> reqs) \<Rightarrow> (nat \<times> step) list \<Rightarrow> bool
    \<Rightarrow> (wstate, unit) prog" where
  "init_steps e uuid on_init_params [] has_started_first_step = ret ()"
| "init_steps e uuid on_init_params (x # xs) has_started_first_step =
     bind (api e (snd x)) (\<lambda>a.
       case a of
         None \<Rightarrow> init_steps e uuid on_init_params xs has_started_first_step
       | Some m \<Rightarrow>
           bind (case on_init m of
                   None \<Rightarrow> ret ()
                 | Some f \<Rightarrow>
                     call (Call_on_init (name (snd x)) uuid (dict_get on_init_params (name (snd x)) []))
                       (f uuid (dict_get on_init_params (name (snd x)) []))) (\<lambda>_.
           if \<not> has_started_first_step then
             bind (set_status (name (snd x))) (\<lambda>_.
             bind (save_workflow e) (\<lambda>_.
             bind (case on_start m of
                     None \<Rightarrow> ret ()
                   | Some f \<Rightarrow> call (Call_on_start (name (snd x)) uuid) (f uuid)) (\<lambda>_.
             init_steps e uuid on_init_params xs True)))
           else init_steps e uuid on_init_params xs has_started_first_step))"

definition start_workflow :: "env \<Rightarrow> string \<Rightarrow> string list \<Rightarrow> (string \<rightharpoonup> reqs) \<Rightarrow> (state, workflow) prog" where
  "start_workflow e uuid step_names on_init_params =
     commit_on_success
       (bind (call (Call_get_submission_and_student uuid) (sub_api_get_submission_and_student e uuid))
          (\<lambda>submission_dict.
        bind (objects_create e uuid submission_dict) (\<lambda>created.
        bind (with_row (fst created) (snd created)
                (bind (add_steps e step_names 0) (\<lambda>workflow_steps.
                 bind (init_steps e uuid on_init_params workflow_steps False) (\<lambda>_.
                 update_from_assessments e None)))) (\<lambda>r.
        ret (snd r)))))"

definition update_workflow_async :: "env \<Rightarrow> (string \<rightharpoonup> string) \<Rightarrow> (state, unit) prog" where
  "update_workflow_async e kwargs =
     (case kwargs ''submission_uuid'' of
        None \<Rightarrow> emit (Log Error Signal_without_uuid)
      | Some uuid \<Rightarrow>
          try_except
            (bind (objects_get e uuid) (\<lambda>found.
             bind (with_row (fst found) (snd found) (update_from_assessments e None)) (\<lambda>_.
             ret ())))
            (\<lambda>err. if err = DoesNotExist then emit (Log Exception (Could_not_retrieve_workflow uuid))
                   else if err = DatabaseError then emit (Log Exception (Database_error_occurred uuid))
                   else emit (Log Exception (Unexpected_error_occurred uuid))))"

section \<open>A concrete configuration\<close>

definition no_api :: assessment_api where
  "no_api = \<lparr>on_init = None, on_start = None, submitter_is_finished = None,
             assessment_is_finished = None, get_score = None\<rparr>"

text \<open>
  A peer module whose tests and score need requirements, a self module that is complete
  and can score, under the default settings.
\<close>

definition peer_api :: assessment_api where
  "peer_api = no_api\<lparr>
     on_init := Some (\<lambda>uuid params. Inr ()),
     on_start := Some (\<lambda>uuid. Inr ()),
     submitter_is_finished := Some (\<lambda>uuid r. Inr (r \<noteq> None)),
     assessment_is_finished := Some (\<lambda>uuid r. Inr (r \<noteq> None)),
     get_score := Some (\<lambda>uuid r. Inr (case r of None \<Rightarrow> None
                                           | Some _ \<Rightarrow> Some \<lparr>points_earned = 3, points_possible = 10\<rparr>))\<rparr>"

definition self_api :: assessment_api where
  "self_api = no_api\<lparr>
     on_start := Some (\<lambda>uuid. Inr ()),
     submitter_is_finished := Some (\<lambda>uuid r. Inr True),
     assessment_is_finished := Some (\<lambda>uuid r. Inr True),
     get_score := Some (\<lambda>uuid r. Inr (Some \<lparr>points_earned = 8, points_possible = 10\<rparr>))\<rparr>"

text \<open>A module without \<open>submitter_is_finished\<close>, and one without \<open>assessment_is_finished\<close>.\<close>

definition training_api :: assessment_api where
  "training_api = no_api\<lparr>assessment_is_finished := Some (\<lambda>uuid r. Inr False)\<rparr>"

definition ai_api :: assessment_api where
  "ai_api = no_api\<lparr>submitter_is_finished := Some (\<lambda>uuid r. Inr False)\<rparr>"

definition default_env :: env where
  "default_env =
     \<lparr>ORA2_ASSESSMENTS = [''peer'' \<mapsto> ''openassessment.assessment.api.peer'',
                           ''self'' \<mapsto> ''openassessment.assessment.api.self'',
                           ''training'' \<mapsto> ''openassessment.assessment.api.student_training'',
                           ''ai'' \<mapsto> ''openassessment.assessment.api.ai''],
      ASSESSMENT_SCORE_PRIORITY = [''peer'', ''self'', ''ai''],
      import_module = [''openassessment.assessment.api.peer'' \<mapsto> peer_api,
                       ''openassessment.assessment.api.self'' \<mapsto> self_api,
                       ''openassessment.assessment.api.student_training'' \<mapsto> training_api,
                       ''openassessment.assessment.api.ai'' \<mapsto> ai_api],
      import_failure = (\<lambda>api_path. ImportError),
      sub_api_get_submission_and_student =
        (\<lambda>uuid. if uuid = ''u1'' then Inr \<lparr>sub_course_id = ''c'', sub_item_id = ''i''\<rparr>
                else Inl SubmissionNotFoundError),
      sub_api_set_score = (\<lambda>uuid earned possible. Inr ()),
      db_fault = (\<lambda>op. False)\<rparr>"

definition wstate0 :: "string \<Rightarrow> step list \<Rightarrow> wstate" where
  "wstate0 st rows =
     \<lparr>clock = 0, trace = [], db_log = [],
      self = \<lparr>submission_uuid = ''u1'', status = st, course_id = ''c'', item_id = ''i''\<rparr>,
      stored_status = st, steps = rows\<rparr>"

definition state0 :: state where
  "state0 = \<lparr>clock = 0, trace = [], db_log = [], workflows = Map.empty\<rparr>"

section \<open>Vocabulary of the properties\<close>

definition is_submitter_call :: "event \<Rightarrow> bool" where
  "is_submitter_call ev = (case ev of Call_submitter_is_finished _ _ _ \<Rightarrow> True | _ \<Rightarrow> False)"

definition is_assessment_call :: "event \<Rightarrow> bool" where
  "is_assessment_call ev = (case ev of Call_assessment_is_finished _ _ _ \<Rightarrow> True | _ \<Rightarrow> False)"

definition latched_peer :: step where
  "latched_peer = (new_step ''peer'' 0)\<lparr>submitter_completed_at := Some 5\<rparr>"

definition orphan :: step where
  "orphan = new_step ''retired'' 2"

definition done_step :: "string \<Rightarrow> nat \<Rightarrow> step" where
  "done_step n i = \<lparr>name = n, submitter_completed_at = Some 1, assessment_completed_at = Some 2,
                    order_num = i\<rparr>"

definition is_on_start :: "event \<Rightarrow> bool" where
  "is_on_start ev = (case ev of Call_on_start _ _ \<Rightarrow> True | _ \<Rightarrow> False)"

text \<open>A workflow in its first step, and one whose steps are all complete and assessed.\<close>

definition in_peer_step :: wstate where
  "in_peer_step = wstate0 ''peer'' [new_step ''peer'' 0, new_step ''self'' 1]"

definition all_assessed :: wstate where
  "all_assessed = wstate0 ''waiting'' [done_step ''peer'' 0, done_step ''self'' 1]"

definition passes_None :: "event \<Rightarrow> bool" where
  "passes_None ev =
     (case ev of
        Call_submitter_is_finished _ _ q \<Rightarrow> q = None
      | Call_assessment_is_finished _ _ q \<Rightarrow> q = None
      | _ \<Rightarrow> True)"

definition loads :: "env \<Rightarrow> step \<Rightarrow> bool" where
  "loads e st = (case ORA2_ASSESSMENTS e (name st) of
                   None \<Rightarrow> False
                 | Some p \<Rightarrow> (case import_module e p of None \<Rightarrow> False | Some m \<Rightarrow> True))"

text \<open>The value of a completion test looked up with \<open>getattr\<close> and its default.\<close>

definition test_value :: "(string \<Rightarrow> reqs option \<Rightarrow> error + bool) option \<Rightarrow> string \<Rightarrow> reqs option
    \<Rightarrow> error + bool" where
  "test_value f uuid q = (case f of None \<Rightarrow> Inr True | Some g \<Rightarrow> g uuid q)"

text \<open>
  The entry \<open>v\<close> is what the module configured for the step name \<open>n\<close> answers now,
  under the requirements \<open>req\<close>.
\<close>

definition live_entry :: "env \<Rightarrow> string \<Rightarrow> (string \<rightharpoonup> reqs) \<Rightarrow> string \<Rightarrow> step_status \<Rightarrow> bool" where
  "live_entry e uuid req n v =
     (case ORA2_ASSESSMENTS e n of
        None \<Rightarrow> False
      | Some p \<Rightarrow>
          (case import_module e p of
             None \<Rightarrow> False
           | Some m \<Rightarrow>
               test_value (submitter_is_finished m) uuid (Some (dict_get req n [])) = Inr (complete v) \<and>
               test_value (assessment_is_finished m) uuid (Some (dict_get req n [])) = Inr (graded v)))"

definition only_orphan :: wstate where
  "only_orphan = wstate0 ''peer'' [orphan]"

text \<open>A program that changes nothing but the trace, which it extends.\<close>

definition trace_only :: "('z effects_scheme, 'a) prog \<Rightarrow> bool" where
  "trace_only m = (\<forall>s r s'. m s = (r, s') \<longrightarrow> s' = s\<lparr>trace := trace s'\<rparr> \<and> (\<exists>evs. trace s' = trace s @ evs))"

text \<open>The log record of the \<open>except\<close> clause that catches \<open>err\<close>.\<close>

definition async_handler :: "string \<Rightarrow> error \<Rightarrow> event" where
  "async_handler uuid err =
     Log Exception (if err = DoesNotExist then Could_not_retrieve_workflow uuid
                    else if err = DatabaseError then Database_error_occurred uuid
                    else Unexpected_error_occurred uuid)"

definition returned :: "error + 'a \<Rightarrow> bool" where
  "returned r = (case r of Inl err \<Rightarrow> False | Inr x \<Rightarrow> True)"

definition module_call :: "env \<Rightarrow> string \<Rightarrow> (assessment_api \<Rightarrow> bool) \<Rightarrow> bool" where
  "module_call e n ok =
     (case ORA2_ASSESSMENTS e n of
        None \<Rightarrow> False
      | Some p \<Rightarrow> (case import_module e p of None \<Rightarrow> False | Some m \<Rightarrow> ok m))"

text \<open>The call recorded by an event returned normally.\<close>

definition call_ok :: "env \<Rightarrow> event \<Rightarrow> bool" where
  "call_ok e ev =
     (case ev of
        Call_on_init n uuid params \<Rightarrow>
          module_call e n (\<lambda>m. case on_init m of None \<Rightarrow> False | Some f \<Rightarrow> returned (f uuid params))
      | Call_on_start n uuid \<Rightarrow>
          module_call e n (\<lambda>m. case on_start m of None \<Rightarrow> False | Some f \<Rightarrow> returned (f uuid))
      | Call_submitter_is_finished n uuid q \<Rightarrow>
          module_call e n (\<lambda>m. case submitter_is_finished m of None \<Rightarrow> False | Some f \<Rightarrow> returned (f uuid q))
      | Call_assessment_is_finished n uuid q \<Rightarrow>
          module_call e n (\<lambda>m. case assessment_is_finished m of None \<Rightarrow> False | Some f \<Rightarrow> returned (f uuid q))
      | Call_get_score n uuid q \<Rightarrow>
          module_call e n (\<lambda>m. case get_score m of None \<Rightarrow> False | Some f \<Rightarrow> returned (f uuid q))
      | Call_get_submission_and_student uuid \<Rightarrow> returned (sub_api_get_submission_and_student e uuid)
      | Call_set_score uuid earned possible \<Rightarrow> returned (sub_api_set_score e uuid earned possible)
      | Log level msg \<Rightarrow> True)"

text \<open>From \<open>s\<close> to \<open>s'\<close> every recorded call returned and every storage operation worked.\<close>

definition clean_step :: "env \<Rightarrow> 'y effects_scheme \<Rightarrow> 'z effects_scheme \<Rightarrow> bool" where
  "clean_step e s s' =
     (\<exists>evs ops. trace s' = trace s @ evs \<and> db_log s' = db_log s @ ops \<and>
        list_all (call_ok e) evs \<and> list_all (\<lambda>op. \<not> db_fault e op) ops)"

text \<open>The step name is not configured, or its module loads.\<close>

definition loadable :: "env \<Rightarrow> string \<Rightarrow> bool" where
  "loadable e n =
     (case ORA2_ASSESSMENTS e n of
        None \<Rightarrow> True
      | Some p \<Rightarrow> (case import_module e p of None \<Rightarrow> False | Some m \<Rightarrow> True))"

text \<open>
  The default settings with a peer module whose \<open>on_start\<close> raises, and with a storage
  where every operation fails; a table that holds one workflow.
\<close>

definition broken_env :: env where
  "broken_env = default_env\<lparr>import_module :=
     (import_module default_env)(''openassessment.assessment.api.peer'' \<mapsto>
        peer_api\<lparr>on_start := Some (\<lambda>uuid. Inl (ModuleError ''boom''))\<rparr>)\<rparr>"

definition faulty_env :: env where
  "faulty_env = default_env\<lparr>db_fault := (\<lambda>op. True)\<rparr>"

definition stored_state :: state where
  "stored_state =
     \<lparr>clock = 0, trace = [], db_log = [],
      workflows = [''u1'' \<mapsto> \<lparr>row_status = ''peer'', row_course_id = ''c'', row_item_id = ''i'',
                               row_steps = [new_step ''peer'' 0, new_step ''self'' 1]\<rparr>]\<rparr>"

definition raised :: "error + 'a \<Rightarrow> error option" where
  "raised r = (case r of Inl err \<Rightarrow> Some err | Inr x \<Rightarrow> None)"

definition module_raised :: "env \<Rightarrow> string \<Rightarrow> (assessment_api \<Rightarrow> error option) \<Rightarrow> error option" where
  "module_raised e n h =
     (case ORA2_ASSESSMENTS e n of
        None \<Rightarrow> None
      | Some p \<Rightarrow> (case import_module e p of None \<Rightarrow> None | Some m \<Rightarrow> h m))"

text \<open>The exception that the call recorded by an event raised, if it raised one.\<close>

definition call_error :: "env \<Rightarrow> event \<Rightarrow> error option" where
  "call_error e ev =
     (case ev of
        Call_on_init n uuid params \<Rightarrow>
          module_raised e n (\<lambda>m. case on_init m of None \<Rightarrow> None | Some f \<Rightarrow> raised (f uuid params))
      | Call_on_start n uuid \<Rightarrow>
          module_raised e n (\<lambda>m. case on_start m of None \<Rightarrow> None | Some f \<Rightarrow> raised (f uuid))
      | Call_submitter_is_finished n uuid q \<Rightarrow>
          module_raised e n (\<lambda>m. case submitter_is_finished m of None \<Rightarrow> None | Some f \<Rightarrow> raised (f uuid q))
      | Call_assessment_is_finished n uuid q \<Rightarrow>
          module_raised e n (\<lambda>m. case assessment_is_finished m of None \<Rightarrow> None | Some f \<Rightarrow> raised (f uuid q))
      | Call_get_score n uuid q \<Rightarrow>
          module_raised e n (\<lambda>m. case get_score m of None \<Rightarrow> None | Some f \<Rightarrow> raised (f uuid q))
      | Call_get_submission_and_student uuid \<Rightarrow> raised (sub_api_get_submission_and_student e uuid)
      | Call_set_score uuid earned possible \<Rightarrow> raised (sub_api_set_score e uuid earned possible)
      | Log level msg \<Rightarrow> None)"

text \<open>What \<open>api\<close> raises for a step name whose configured module does not load.\<close>

definition load_error :: "env \<Rightarrow> string \<Rightarrow> string \<Rightarrow> error" where
  "load_error e n p =
     (if import_failure e p = ImportError \<or> import_failure e p = ValueError
      then AssessmentApiLoadError n p else import_failure e p)"

text \<open>
  The exceptions of the configuration: a configured module that does not load, and the
  missing attribute of \<open>STATUS\<close> when \<open>peer\<close> or \<open>self\<close> is not configured.
\<close>

definition config_error :: "env \<Rightarrow> error \<Rightarrow> bool" where
  "config_error e err =
     ((\<exists>n p. ORA2_ASSESSMENTS e n = Some p \<and> import_module e p = None \<and> err = load_error e n p) \<or>
      (err = AttributeError \<and>
         (ORA2_ASSESSMENTS e ''peer'' = None \<or> ORA2_ASSESSMENTS e ''self'' = None)))"

text \<open>
  From \<open>s\<close> to \<open>s'\<close> everything worked up to one operation, the last, and \<open>err\<close> is
  the exception of that operation: of the last recorded call, or the \<open>DatabaseError\<close>
  of the last storage operation (one that \<open>bad\<close> says fails), or an exception of the
  configuration.
\<close>

definition stops_with :: "env \<Rightarrow> (db_op \<Rightarrow> bool) \<Rightarrow> 'y effects_scheme \<Rightarrow> 'z effects_scheme \<Rightarrow> error
    \<Rightarrow> bool" where
  "stops_with e bad s s' err =
     (\<exists>evs ops. trace s' = trace s @ evs \<and> db_log s' = db_log s @ ops \<and>
        ((\<exists>evs0 ev. evs = evs0 @ [ev] \<and> list_all (call_ok e) evs0 \<and> call_error e ev = Some err \<and>
            list_all (\<lambda>op. \<not> db_fault e op) ops) \<or>
         (\<exists>ops0 op. ops = ops0 @ [op] \<and> list_all (\<lambda>op. \<not> db_fault e op) ops0 \<and> bad op \<and>
            err = DatabaseError \<and> list_all (call_ok e) evs) \<or>
         (list_all (call_ok e) evs \<and> list_all (\<lambda>op. \<not> db_fault e op) ops \<and> config_error e err)))"

definition outcome :: "env \<Rightarrow> (db_op \<Rightarrow> bool) \<Rightarrow> 'y effects_scheme \<Rightarrow> error + 'a \<Rightarrow> 'z effects_scheme
    \<Rightarrow> bool" where
  "outcome e bad s r s' =
     (case r of Inr x \<Rightarrow> clean_step e s s' | Inl err \<Rightarrow> stops_with e bad s s' err)"

definition resolved :: "env \<Rightarrow> string \<Rightarrow> assessment_api option" where
  "resolved e n = (case ORA2_ASSESSMENTS e n of None \<Rightarrow> None | Some p \<Rightarrow> import_module e p)"

(*DEFS-END*)
section \<open>Running the primitives\<close>

lemma bind_apply: "bind m f s = (case m s of (Inl e, s') \<Rightarrow> (Inl e, s') | (Inr x, s') \<Rightarrow> f x s')"
  by (simp add: bind_def)

lemma raise_apply: "raise e s = (Inl e, s)"
  by (simp add: raise_def)

lemma emit_apply: "emit ev s = (Inr (), s\<lparr>trace := trace s @ [ev]\<rparr>)"
  by (simp add: emit_def)

lemma call_apply: "call ev r s = (r, s\<lparr>trace := trace s @ [ev]\<rparr>)"
  by (simp add: call_def bind_def emit_def lift_def)

lemma now_apply: "now s = (Inr (clock s), s\<lparr>clock := Suc (clock s)\<rparr>)"
  by (simp add: now_def)

lemma db_guard_apply:
  "db_guard e op s =
     (if db_fault e op then Inl DatabaseError else Inr (), s\<lparr>db_log := db_log s @ [op]\<rparr>)"
  by (simp add: db_guard_def)

lemma api_apply:
  "api e st s =
     (case ORA2_ASSESSMENTS e (name st) of
        Some p \<Rightarrow> (case import_module e p of Some m \<Rightarrow> (Inr (Some m), s)
                   | None \<Rightarrow> (Inl (if import_failure e p = ImportError \<or> import_failure e p = ValueError
                                  then AssessmentApiLoadError (name st) p else import_failure e p), s))
      | None \<Rightarrow> (Inr None, s\<lparr>trace := trace s @ [Log Warning (No_assessment_configured (name st))]\<rparr>))"
  by (simp add: api_def ret_def raise_def bind_def emit_def split: option.splits)

lemma finished_apply:
  "finished f ev uuid r s =
     (case f of None \<Rightarrow> (Inr True, s) | Some g \<Rightarrow> (g uuid r, s\<lparr>trace := trace s @ [ev]\<rparr>))"
  by (simp add: finished_def ret_def call_apply split: option.splits)

lemma save_step_apply:
  "save_step e obj s =
     (if db_fault e (Update_step (fst obj))
      then (Inl DatabaseError, s\<lparr>db_log := db_log s @ [Update_step (fst obj)]\<rparr>)
      else (Inr (), s\<lparr>db_log := db_log s @ [Update_step (fst obj)],
                       steps := (steps s)[fst obj := snd obj]\<rparr>))"
  by (simp add: save_step_def bind_def db_guard_apply)

lemmas update_unfold = update_def check_submitter_def check_assessment_def Let_def bind_apply api_apply finished_apply now_apply ret_def
  save_step_apply is_submitter_complete_def is_assessment_complete_def getattr_def

lemmas example_defs = step_reqs_of_def dict_get_def orphan_def latched_peer_def new_step_def wstate0_def
  default_env_def peer_api_def self_api_def training_api_def ai_api_def no_api_def

lemma map_list_update_same:
  "i < length xs \<Longrightarrow> f y = f (xs ! i) \<Longrightarrow> map f (xs[i := y]) = map f xs"
  by (simp add: list_eq_iff_nth_eq nth_list_update)

section \<open>The terminal status\<close>

text \<open>
  C1. A workflow whose status is \<open>done\<close> is final: \<open>update_from_assessments\<close>, with any
  requirements (\<open>None\<close> included), returns at once and leaves the whole state as it was:
  the status, every step row, the clock, and the trace, so that no module function is
  called and no score is written.
\<close>

theorem done_is_final:
  "status (self s) = ''done'' \<Longrightarrow> update_from_assessments e rq s = (Inr (), s)"
  by (simp add: update_from_assessments_def ret_def)

theorem done_is_final_witness:
  "status (self (wstate0 ''done'' [new_step ''peer'' 0])) = ''done'' \<and>
   update_from_assessments default_env (Some [''peer'' \<mapsto> [(''must_grade'', 5)]])
     (wstate0 ''done'' [new_step ''peer'' 0]) = (Inr (), wstate0 ''done'' [new_step ''peer'' 0]) \<and>
   update_from_assessments default_env None
     (wstate0 ''done'' [new_step ''peer'' 0]) = (Inr (), wstate0 ''done'' [new_step ''peer'' 0])"
  using done_is_final [of "wstate0 ''done'' [new_step ''peer'' 0]"]
  by (simp add: wstate0_def)

section \<open>The latches of a step\<close>

text \<open>
  C2. In \<open>AssessmentWorkflowStep.update\<close>, whatever the submission, the requirements and
  the modules: when \<open>submitter_completed_at\<close> is already set, the call adds no
  \<open>submitter_is_finished\<close> call to the trace, the instance keeps the timestamp, and
  (the instance being the stored row) no stored row changes its timestamp; the same
  holds for \<open>assessment_completed_at\<close> and \<open>assessment_is_finished\<close>.
\<close>

theorem update_latch:
  assumes "update e uuid rq obj s = (r, s')"
  shows "(submitter_completed_at (snd obj) \<noteq> None \<longrightarrow>
            filter is_submitter_call (trace s') = filter is_submitter_call (trace s) \<and>
            (\<forall>obj'. r = Inr obj' \<longrightarrow> submitter_completed_at (snd obj') = submitter_completed_at (snd obj)) \<and>
            (fst obj < length (steps s) \<and> steps s ! fst obj = snd obj \<longrightarrow>
               map submitter_completed_at (steps s') = map submitter_completed_at (steps s)))
       \<and> (assessment_completed_at (snd obj) \<noteq> None \<longrightarrow>
            filter is_assessment_call (trace s') = filter is_assessment_call (trace s) \<and>
            (\<forall>obj'. r = Inr obj' \<longrightarrow> assessment_completed_at (snd obj') = assessment_completed_at (snd obj)) \<and>
            (fst obj < length (steps s) \<and> steps s ! fst obj = snd obj \<longrightarrow>
               map assessment_completed_at (steps s') = map assessment_completed_at (steps s)))"
  using assms
  by (auto simp add: update_unfold is_submitter_call_def is_assessment_call_def map_list_update_same
      split: option.splits sum.splits if_splits prod.splits)

theorem update_latch_witness:
  "update default_env ''u1'' (Some Map.empty) (0, latched_peer) (wstate0 ''peer'' [latched_peer])
     = (Inr (0, latched_peer\<lparr>assessment_completed_at := Some 0\<rparr>),
        (wstate0 ''peer'' [latched_peer\<lparr>assessment_completed_at := Some 0\<rparr>])
          \<lparr>clock := 1, trace := [Call_assessment_is_finished ''peer'' ''u1'' (Some [])],
            db_log := [Update_step 0]\<rparr>) \<and>
   submitter_completed_at (snd (0::nat, latched_peer)) \<noteq> None \<and>
   filter is_submitter_call [Call_assessment_is_finished ''peer'' ''u1'' (Some [])] = []"
  using update_latch [of default_env "''u1''" "Some Map.empty" "(0, latched_peer)"
      "wstate0 ''peer'' [latched_peer]"]
  by (simp add: update_unfold step_reqs_of_def dict_get_def latched_peer_def new_step_def wstate0_def
      default_env_def peer_api_def no_api_def is_submitter_call_def)

section \<open>Steps without a module, modules without a test\<close>

lemma first_incomplete_skip:
  "submitter_completed_at (snd x) \<noteq> None \<Longrightarrow>
   first_incomplete (xs @ x # ys) = first_incomplete (xs @ ys)"
  by (induction xs) (auto simp: first_incomplete_def)

text \<open>
  C6. A step whose name has no configured module is completed by its first \<open>update\<close>:
  unless storing the row fails, the call returns, both timestamps are set, no completion
  test of any module is called, and wherever the step stands among the steps it is
  skipped by the search for the first incomplete step and does not hold back scoring.
  When a module resolves but omits \<open>submitter_is_finished\<close>, that test counts as true:
  no such call is made, every normal return has \<open>submitter_completed_at\<close> set, and the
  call can only fail through storage or through the other test; likewise for a module
  that omits \<open>assessment_is_finished\<close>.
\<close>

theorem missing_test_defaults_to_complete:
  assumes "update e uuid rq obj s = (r, s')"
  shows "(ORA2_ASSESSMENTS e (name (snd obj)) = None \<and> \<not> db_fault e (Update_step (fst obj)) \<longrightarrow>
            filter is_submitter_call (trace s') = filter is_submitter_call (trace s) \<and>
            filter is_assessment_call (trace s') = filter is_assessment_call (trace s) \<and>
            (\<exists>st'. r = Inr (fst obj, st') \<and>
               submitter_completed_at st' \<noteq> None \<and> assessment_completed_at st' \<noteq> None \<and>
               (st' \<noteq> snd obj \<longrightarrow> steps s' = (steps s)[fst obj := st']) \<and>
               first_incomplete (xs @ (fst obj, st') # ys) = first_incomplete (xs @ ys) \<and>
               list_all (\<lambda>x. assessment_completed_at (snd x) \<noteq> None) (xs @ (fst obj, st') # ys) =
                 list_all (\<lambda>x. assessment_completed_at (snd x) \<noteq> None) (xs @ ys)))
       \<and> (\<forall>p m. ORA2_ASSESSMENTS e (name (snd obj)) = Some p \<and> import_module e p = Some m \<and>
              submitter_is_finished m = None \<longrightarrow>
            filter is_submitter_call (trace s') = filter is_submitter_call (trace s) \<and>
            (\<forall>obj'. r = Inr obj' \<longrightarrow> submitter_completed_at (snd obj') \<noteq> None) \<and>
            (\<forall>err. r = Inl err \<longrightarrow> err = DatabaseError \<or>
               (\<exists>g. assessment_is_finished m = Some g \<and> g uuid (step_reqs_of rq (name (snd obj))) = Inl err)))
       \<and> (\<forall>p m. ORA2_ASSESSMENTS e (name (snd obj)) = Some p \<and> import_module e p = Some m \<and>
              assessment_is_finished m = None \<longrightarrow>
            filter is_assessment_call (trace s') = filter is_assessment_call (trace s) \<and>
            (\<forall>obj'. r = Inr obj' \<longrightarrow> assessment_completed_at (snd obj') \<noteq> None) \<and>
            (\<forall>err. r = Inl err \<longrightarrow> err = DatabaseError \<or>
               (\<exists>g. submitter_is_finished m = Some g \<and> g uuid (step_reqs_of rq (name (snd obj))) = Inl err)))"
  using assms
  by (cases obj)
    (auto simp add: update_unfold is_submitter_call_def is_assessment_call_def first_incomplete_skip
      split: option.splits sum.splits if_splits prod.splits)

theorem missing_test_defaults_to_complete_witness:
  "update default_env ''u1'' None (0, orphan) (wstate0 ''peer'' [orphan])
     = (Inr (0, orphan\<lparr>submitter_completed_at := Some 0, assessment_completed_at := Some 1\<rparr>),
        (wstate0 ''peer'' [orphan\<lparr>submitter_completed_at := Some 0, assessment_completed_at := Some 1\<rparr>])
          \<lparr>clock := 2, trace := [Log Warning (No_assessment_configured ''retired''),
                                  Log Warning (No_assessment_configured ''retired'')],
            db_log := [Update_step 0]\<rparr>) \<and>
   ORA2_ASSESSMENTS default_env (name (snd (0::nat, orphan))) = None \<and>
   \<not> db_fault default_env (Update_step (fst (0::nat, orphan))) \<and>
   first_incomplete [(0, orphan\<lparr>submitter_completed_at := Some 0, assessment_completed_at := Some 1\<rparr>)]
     = ''waiting'' \<and>
   update default_env ''u1'' None (0, new_step ''training'' 0) (wstate0 ''training'' [new_step ''training'' 0])
     = (Inr (0, (new_step ''training'' 0)\<lparr>submitter_completed_at := Some 0\<rparr>),
        (wstate0 ''training'' [(new_step ''training'' 0)\<lparr>submitter_completed_at := Some 0\<rparr>])
          \<lparr>clock := 1, trace := [Call_assessment_is_finished ''training'' ''u1'' None],
            db_log := [Update_step 0]\<rparr>) \<and>
   ORA2_ASSESSMENTS default_env ''training'' = Some ''openassessment.assessment.api.student_training'' \<and>
   import_module default_env ''openassessment.assessment.api.student_training'' = Some training_api \<and>
   submitter_is_finished training_api = None \<and>
   update default_env ''u1'' None (0, new_step ''ai'' 0) (wstate0 ''ai'' [new_step ''ai'' 0])
     = (Inr (0, (new_step ''ai'' 0)\<lparr>assessment_completed_at := Some 0\<rparr>),
        (wstate0 ''ai'' [(new_step ''ai'' 0)\<lparr>assessment_completed_at := Some 0\<rparr>])
          \<lparr>clock := 1, trace := [Call_submitter_is_finished ''ai'' ''u1'' None],
            db_log := [Update_step 0]\<rparr>) \<and>
   ORA2_ASSESSMENTS default_env ''ai'' = Some ''openassessment.assessment.api.ai'' \<and>
   import_module default_env ''openassessment.assessment.api.ai'' = Some ai_api \<and>
   assessment_is_finished ai_api = None"
proof -
  have h1: "update default_env ''u1'' None (0, orphan) (wstate0 ''peer'' [orphan])
     = (Inr (0, orphan\<lparr>submitter_completed_at := Some 0, assessment_completed_at := Some 1\<rparr>),
        (wstate0 ''peer'' [orphan\<lparr>submitter_completed_at := Some 0, assessment_completed_at := Some 1\<rparr>])
          \<lparr>clock := 2, trace := [Log Warning (No_assessment_configured ''retired''),
                                  Log Warning (No_assessment_configured ''retired'')],
            db_log := [Update_step 0]\<rparr>)"
    by (simp add: update_unfold example_defs)
  have h2: "update default_env ''u1'' None (0, new_step ''training'' 0) (wstate0 ''training'' [new_step ''training'' 0])
     = (Inr (0, (new_step ''training'' 0)\<lparr>submitter_completed_at := Some 0\<rparr>),
        (wstate0 ''training'' [(new_step ''training'' 0)\<lparr>submitter_completed_at := Some 0\<rparr>])
          \<lparr>clock := 1, trace := [Call_assessment_is_finished ''training'' ''u1'' None],
            db_log := [Update_step 0]\<rparr>)"
    by (simp add: update_unfold example_defs)
  have h3: "update default_env ''u1'' None (0, new_step ''ai'' 0) (wstate0 ''ai'' [new_step ''ai'' 0])
     = (Inr (0, (new_step ''ai'' 0)\<lparr>assessment_completed_at := Some 0\<rparr>),
        (wstate0 ''ai'' [(new_step ''ai'' 0)\<lparr>assessment_completed_at := Some 0\<rparr>])
          \<lparr>clock := 1, trace := [Call_submitter_is_finished ''ai'' ''u1'' None],
            db_log := [Update_step 0]\<rparr>)"
    by (simp add: update_unfold example_defs)
  have c: "ORA2_ASSESSMENTS default_env (name (snd (0::nat, orphan))) = None \<and>
      \<not> db_fault default_env (Update_step (fst (0::nat, orphan))) \<and>
      ORA2_ASSESSMENTS default_env ''training'' = Some ''openassessment.assessment.api.student_training'' \<and>
      import_module default_env ''openassessment.assessment.api.student_training'' = Some training_api \<and>
      submitter_is_finished training_api = None \<and>
      ORA2_ASSESSMENTS default_env ''ai'' = Some ''openassessment.assessment.api.ai'' \<and>
      import_module default_env ''openassessment.assessment.api.ai'' = Some ai_api \<and>
      assessment_is_finished ai_api = None"
    by (simp add: example_defs)
  have f: "first_incomplete [(0, orphan\<lparr>submitter_completed_at := Some 0, assessment_completed_at := Some 1\<rparr>)]
     = ''waiting''"
    using missing_test_defaults_to_complete [OF h1, of "[]" "[]"] c
    by (simp add: first_incomplete_def)
  show ?thesis
    using h1 h2 h3 c f missing_test_defaults_to_complete [OF h2] missing_test_defaults_to_complete [OF h3]
    by blast
qed

section \<open>Running the workflow\<close>

lemma select_steps_apply:
  "select_steps e p s =
     (if db_fault e Select_steps then Inl DatabaseError
      else Inr (sort_key (\<lambda>x. order_num (snd x)) (filter (\<lambda>x. p (snd x)) (enumerate 0 (steps s)))),
      s\<lparr>db_log := db_log s @ [Select_steps]\<rparr>)"
  by (simp add: select_steps_def bind_def db_guard_apply)

lemma insert_step_apply:
  "insert_step e st s =
     (if db_fault e (Insert_step (name st))
      then (Inl DatabaseError, s\<lparr>db_log := db_log s @ [Insert_step (name st)]\<rparr>)
      else (Inr (length (steps s), st),
            s\<lparr>db_log := db_log s @ [Insert_step (name st)], steps := steps s @ [st]\<rparr>))"
  by (simp add: insert_step_def bind_def db_guard_apply)

lemma save_workflow_apply:
  "save_workflow e s =
     (if db_fault e Update_workflow
      then (Inl DatabaseError, s\<lparr>db_log := db_log s @ [Update_workflow]\<rparr>)
      else (Inr (), s\<lparr>db_log := db_log s @ [Update_workflow], stored_status := status (self s)\<rparr>))"
  by (simp add: save_workflow_def bind_def db_guard_apply)

lemma set_status_apply: "set_status v s = (Inr (), s\<lparr>self := (self s)\<lparr>status := v\<rparr>\<rparr>)"
  by (simp add: set_status_def)

lemma STATUS_apply:
  "STATUS e n s = (if ORA2_ASSESSMENTS e n \<noteq> None \<or> n = ''waiting'' \<or> n = ''done''
                   then (Inr n, s) else (Inl AttributeError, s))"
  by (simp add: STATUS_def ret_def raise_def)

lemma set_score_apply:
  "set_score e uuid sc s =
     (sub_api_set_score e uuid (points_earned sc) (points_possible sc),
      s\<lparr>trace := trace s @ [Call_set_score uuid (points_earned sc) (points_possible sc)]\<rparr>)"
  by (simp add: set_score_def call_apply)

lemma bind_Inr_iff:
  "bind m f s = (Inr y, s') \<longleftrightarrow> (\<exists>x s1. m s = (Inr x, s1) \<and> f x s1 = (Inr y, s'))"
  by (auto simp: bind_def split: prod.splits sum.splits)

lemma bind_cases:
  assumes "bind m f s = (r, s')"
  obtains (fail) err where "m s = (Inl err, s')" "r = Inl err"
        | (go) x s1 where "m s = (Inr x, s1)" "f x s1 = (r, s')"
  using assms by (auto simp: bind_def split: prod.splits sum.splits)

text \<open>What a run leaves of the state.\<close>

lemma get_steps_effect:
  assumes "get_steps e s = (r, s')"
  shows "self s' = self s \<and> stored_status s' = stored_status s \<and> clock s' = clock s \<and>
         trace s' = trace s"
  using assms
  by (auto simp: get_steps_def bind_apply select_steps_apply insert_step_apply STATUS_apply ret_def
      split: prod.splits sum.splits if_splits)

lemma update_effect:
  assumes "update e uuid rq obj s = (r, s')"
  shows "self s' = self s \<and> stored_status s' = stored_status s \<and>
         (\<exists>evs. trace s' = trace s @ evs \<and> list_all (\<lambda>ev. \<not> is_on_start ev) evs)"
  using assms
  by (auto simp add: update_unfold is_on_start_def split: option.splits sum.splits if_splits prod.splits)

lemma update_steps_effect:
  "update_steps e uuid rq xs s = (r, s') \<Longrightarrow>
   self s' = self s \<and> stored_status s' = stored_status s \<and>
   (\<exists>evs. trace s' = trace s @ evs \<and> list_all (\<lambda>ev. \<not> is_on_start ev) evs)"
proof (induction xs arbitrary: s r s')
  case Nil
  then show ?case by (simp add: ret_def)
next
  case (Cons x xs)
  from Cons.prems
  have "bind (update e uuid rq x) (\<lambda>x'. bind (update_steps e uuid rq xs) (\<lambda>xs'. ret (x' # xs'))) s
          = (r, s')"
    by simp
  then show ?case
  proof (cases rule: bind_cases)
    case (fail err)
    then show ?thesis using update_effect by blast
  next
    case (go x' s1)
    note first = update_effect[OF go(1)]
    from go(2) show ?thesis
    proof (cases rule: bind_cases)
      case (fail err)
      with Cons.IH[OF fail(1)] first show ?thesis by auto
    next
      case (go xs' s2)
      with Cons.IH[OF go(1)] first show ?thesis by (auto simp: ret_def)
    qed
  qed
qed

lemma step_for_name_snoc:
  "step_for_name (xs @ [x]) = (step_for_name xs)(name (snd x) \<mapsto> x)"
  by (simp add: step_for_name_def)

lemma step_for_name_SomeD:
  "step_for_name xs n = Some y \<Longrightarrow> y \<in> set xs \<and> name (snd y) = n"
proof (induction xs arbitrary: y rule: rev_induct)
  case Nil
  then show ?case by (simp add: step_for_name_def)
next
  case (snoc x xs)
  then show ?case by (auto simp: step_for_name_snoc split: if_splits)
qed

lemma step_for_name_defined:
  "x \<in> set xs \<Longrightarrow> step_for_name xs (name (snd x)) \<noteq> None"
proof (induction xs rule: rev_induct)
  case Nil
  then show ?case by simp
next
  case (snoc y ys)
  then show ?case by (auto simp: step_for_name_snoc)
qed

lemma first_incomplete_cases:
  "first_incomplete xs = ''waiting'' \<or> (\<exists>x \<in> set xs. first_incomplete xs = name (snd x))"
  by (induction xs) (auto simp: first_incomplete_def)

lemma notify_start_effect:
  assumes "notify_start e uuid target s = (r, s')"
  shows "s' = s\<lparr>trace := trace s'\<rparr> \<and> (\<exists>evs. trace s' = trace s @ evs)"
  using assms
  by (auto simp: notify_start_def ret_def bind_apply api_apply call_apply getattr_def
      split: option.splits prod.splits sum.splits)

lemma notify_start_resolved:
  assumes "ORA2_ASSESSMENTS e (name (snd x)) = Some p" "import_module e p = Some m" "on_start m = Some f"
  shows "notify_start e uuid (Some x) s = (f uuid, s\<lparr>trace := trace s @ [Call_on_start (name (snd x)) uuid]\<rparr>)"
  using assms
  by (simp add: notify_start_def bind_apply api_apply call_apply getattr_def)

lemma try_score_result:
  assumes "try_score e uuid rq xs n s = (Inr ns, s')"
  shows "ns = ''done'' \<or> ns = n"
  using assms
  by (auto simp: try_score_def ret_def bind_Inr_iff split: if_splits option.splits)

lemma try_score_skipped:
  "n \<noteq> ''waiting'' \<Longrightarrow> try_score e uuid rq xs n s = (Inr n, s)"
  by (simp add: try_score_def ret_def)

lemma store_status_effect:
  assumes "store_status e ns s = (Inr (), s')"
  shows "status (self s') = ns \<and> steps s' = steps s \<and>
         (\<exists>evs. trace s' = trace s @ evs \<and> list_all (\<lambda>ev. \<not> is_on_start ev) evs)"
  using assms
  by (auto simp: store_status_def ret_def bind_apply set_status_apply save_workflow_apply emit_apply
      is_on_start_def split: if_splits)

section \<open>The score search\<close>

text \<open>
  C4. The code at a workflow whose steps \<open>peer\<close> and \<open>self\<close> are complete and assessed,
  updated without requirements under the priority \<open>peer, self, ai\<close>: the peer module is
  asked for a score and answers null; the search ends there. The self module, which
  would return 8 out of 10, is never asked, no score is set, and the status stays
  \<open>waiting\<close>.
\<close>

theorem score_search_ends_at_first_get_score:
  "update_from_assessments default_env None all_assessed
     = (Inr (), all_assessed\<lparr>trace := [Call_get_score ''peer'' ''u1'' None],
                             db_log := [Select_steps]\<rparr>) \<and>
   map_option (\<lambda>g. g ''u1'' None) (get_score self_api)
     = Some (Inr (Some \<lparr>points_earned = 8, points_possible = 10\<rparr>))"
  by code_simp

section \<open>The start hook\<close>

text \<open>
  C5. The code at a workflow already in the step \<open>peer\<close>, updated twice while \<open>peer\<close>
  stays the first incomplete step: \<open>on_start\<close> of the peer module is called in the
  first update, although the first incomplete step is the step the workflow is in, and
  again in the second. And one \<open>start_workflow\<close>, which starts the first step itself
  and then updates the workflow, calls \<open>on_start\<close> of the peer module twice.
\<close>

theorem on_start_repeated:
  "status (self in_peer_step) = ''peer'' \<and>
   trace in_peer_step = [] \<and>
   fst (update_from_assessments default_env None in_peer_step) = Inr () \<and>
   status (self (snd (update_from_assessments default_env None in_peer_step))) = ''peer'' \<and>
   count_list (trace (snd (update_from_assessments default_env None in_peer_step)))
     (Call_on_start ''peer'' ''u1'') = 1 \<and>
   fst (update_from_assessments default_env None
          (snd (update_from_assessments default_env None in_peer_step))) = Inr () \<and>
   count_list (trace (snd (update_from_assessments default_env None
          (snd (update_from_assessments default_env None in_peer_step)))))
     (Call_on_start ''peer'' ''u1'') = 2 \<and>
   trace state0 = [] \<and>
   count_list (trace (snd (start_workflow default_env ''u1'' [''peer'', ''self''] Map.empty state0)))
     (Call_on_start ''peer'' ''u1'') = 2"
  by code_simp

text \<open>
  The same in general: an \<open>update_from_assessments\<close> that returns with the workflow in
  a step whose module defines \<open>on_start\<close> has called that \<open>on_start\<close> once, whatever the
  status was before the call; the code makes no comparison with the status before it
  notifies the module.
\<close>

lemma on_start_in_every_call:
  assumes run: "update_from_assessments e rq s = (Inr (), s')"
    and open_wf: "status (self s) \<noteq> ''done''"
    and at_step: "status (self s') = n" "n \<noteq> ''waiting''" "n \<noteq> ''done''"
    and hook: "ORA2_ASSESSMENTS e n = Some p" "import_module e p = Some m" "on_start m = Some f"
  shows "count_list (drop (length (trace s)) (trace s')) (Call_on_start n (submission_uuid (self s))) = 1"
proof -
  define uuid where "uuid = submission_uuid (self s)"
  from run open_wf obtain fetched s1 xs s2 s3 ns s4 where
    g: "get_steps e s = (Inr fetched, s1)" and
    u: "update_steps e uuid rq fetched s1 = (Inr xs, s2)" and
    n: "notify_start e uuid (step_for_name xs (first_incomplete xs)) s2 = (Inr (), s3)" and
    t: "try_score e uuid rq xs (first_incomplete xs) s3 = (Inr ns, s4)" and
    st: "store_status e ns s4 = (Inr (), s')"
    by (auto simp: update_from_assessments_def Let_def bind_Inr_iff uuid_def)
  from store_status_effect[OF st] at_step have ns: "ns = n" by simp
  with try_score_result[OF t] at_step have fi: "first_incomplete xs = n" by auto
  with t at_step have s4: "s4 = s3" by (simp add: try_score_skipped)
  from first_incomplete_cases[of xs] fi at_step obtain x where x: "x \<in> set xs" "name (snd x) = n"
    by auto
  from step_for_name_defined[OF x(1)] x(2) obtain y where y: "step_for_name xs n = Some y"
    by auto
  with step_for_name_SomeD have yn: "name (snd y) = n" by blast
  from n fi y yn hook have s3: "s3 = s2\<lparr>trace := trace s2 @ [Call_on_start n uuid]\<rparr>"
    by (simp add: notify_start_resolved)
  from get_steps_effect[OF g] have t1: "trace s1 = trace s" by simp
  from update_steps_effect[OF u] obtain evs2 where
    t2: "trace s2 = trace s1 @ evs2" "list_all (\<lambda>ev. \<not> is_on_start ev) evs2" by blast
  from store_status_effect[OF st] obtain evs5 where
    t5: "trace s' = trace s4 @ evs5" "list_all (\<lambda>ev. \<not> is_on_start ev) evs5" by blast
  have none: "list_all (\<lambda>ev. \<not> is_on_start ev) evs \<Longrightarrow> count_list evs (Call_on_start a b) = 0" for evs a b
    by (induction evs) (auto simp: is_on_start_def)
  have "trace s' = trace s @ evs2 @ [Call_on_start n uuid] @ evs5"
    using t1 t2 t5 s3 s4 by simp
  then show ?thesis
    using none[OF t2(2)] none[OF t5(2)] by (simp add: uuid_def)
qed

lemma on_start_in_every_call_example:
  "update_from_assessments default_env None in_peer_step
     = (Inr (), snd (update_from_assessments default_env None in_peer_step)) \<and>
   status (self in_peer_step) \<noteq> ''done'' \<and>
   status (self in_peer_step) = ''peer'' \<and>
   status (self (snd (update_from_assessments default_env None in_peer_step))) = ''peer'' \<and>
   ORA2_ASSESSMENTS default_env ''peer'' = Some ''openassessment.assessment.api.peer'' \<and>
   import_module default_env ''openassessment.assessment.api.peer'' = Some peer_api \<and>
   map_option (\<lambda>f. f ''u1'') (on_start peer_api) = Some (Inr ()) \<and>
   count_list (drop (length (trace in_peer_step))
       (trace (snd (update_from_assessments default_env None in_peer_step))))
     (Call_on_start ''peer'' (submission_uuid (self in_peer_step))) = 1"
proof -
  have run: "update_from_assessments default_env None in_peer_step
     = (Inr (), snd (update_from_assessments default_env None in_peer_step))"
    by code_simp
  have c1: "status (self in_peer_step) \<noteq> ''done'' \<and>
      status (self in_peer_step) = ''peer'' \<and>
      status (self (snd (update_from_assessments default_env None in_peer_step))) = ''peer'' \<and>
      ORA2_ASSESSMENTS default_env ''peer'' = Some ''openassessment.assessment.api.peer'' \<and>
      map_option (\<lambda>f. f ''u1'') (on_start peer_api) = Some (Inr ())"
    by code_simp
  have c2: "import_module default_env ''openassessment.assessment.api.peer'' = Some peer_api"
    by (simp add: default_env_def)
  have hook: "on_start peer_api = Some (\<lambda>uuid. Inr ())"
    by (simp add: peer_api_def no_api_def)
  from c1 have p1: "status (self in_peer_step) \<noteq> ''done''"
    and p2: "status (self (snd (update_from_assessments default_env None in_peer_step))) = ''peer''"
    and p3: "ORA2_ASSESSMENTS default_env ''peer'' = Some ''openassessment.assessment.api.peer''"
    by blast+
  have p4: "''peer'' \<noteq> ''waiting''" and p5: "''peer'' \<noteq> ''done''"
    by simp_all
  note c = c1 c2 on_start_in_every_call [OF run p1 p2 p4 p5 p3 c2 hook]
  with run c show ?thesis by blast
qed

section \<open>status_details\<close>

lemma fetched_nonempty:
  "list_ex p xs \<Longrightarrow>
   sort_key (\<lambda>x. order_num (snd x)) (filter (\<lambda>x. p (snd x)) (enumerate 0 xs)) \<noteq> []"
proof -
  assume "list_ex p xs"
  then obtain st where "st \<in> set xs" "p st" by (auto simp: list_ex_iff)
  then have "st \<in> snd ` set (enumerate 0 xs)"
    by (metis list.set_map map_snd_enumerate)
  with \<open>p st\<close> have "filter (\<lambda>x. p (snd x)) (enumerate 0 xs) \<noteq> []"
    by (auto simp: filter_empty_conv)
  then show ?thesis
    by (metis length_0_conv length_sort)
qed

lemma fetched_subset:
  "x \<in> set (sort_key (\<lambda>x. order_num (snd x)) (filter (\<lambda>x. p (snd x)) (enumerate 0 xs))) \<Longrightarrow>
   snd x \<in> set xs \<and> p (snd x)"
  by (auto simp: in_set_enumerate_eq) (metis nth_mem)

lemma get_steps_recognized:
  assumes "list_ex (recognized e) (steps s)"
  shows "get_steps e s =
           (if db_fault e Select_steps then Inl DatabaseError
            else Inr (sort_key (\<lambda>x. order_num (snd x))
                        (filter (\<lambda>x. recognized e (snd x)) (enumerate 0 (steps s)))),
            s\<lparr>db_log := db_log s @ [Select_steps]\<rparr>)"
  using fetched_nonempty[OF assms]
  by (simp add: get_steps_def bind_apply select_steps_apply ret_def)

lemma status_entries_None:
  assumes "recognized e (snd x)"
  shows "\<exists>err. status_entries e uuid None (x # xs) d s = (Inl err, s) \<and>
               (loads e (snd x) \<longrightarrow> err = AttributeError)"
  using assms
  by (auto simp: recognized_def loads_def bind_apply api_apply requirements_get_def raise_apply
      split: option.splits)

lemma update_passes_None:
  assumes "update e uuid None obj s = (r, s')"
  shows "list_all passes_None (drop (length (trace s)) (trace s'))"
  using assms
  by (auto simp add: update_unfold step_reqs_of_def passes_None_def
      split: option.splits sum.splits if_splits prod.splits)


lemma trace_onlyD:
  "trace_only m \<Longrightarrow> m s = (r, s') \<Longrightarrow> s' = s\<lparr>trace := trace s'\<rparr> \<and> (\<exists>evs. trace s' = trace s @ evs)"
  by (simp add: trace_only_def)

lemma trace_only_ret: "trace_only (ret x)"
  by (simp add: trace_only_def ret_def)

lemma trace_only_raise: "trace_only (raise err)"
  by (simp add: trace_only_def raise_def)

lemma trace_only_emit: "trace_only (emit ev)"
  by (simp add: trace_only_def emit_def)

lemma trace_only_call: "trace_only (call ev r)"
  by (simp add: trace_only_def call_apply)

lemma trace_only_bind:
  assumes "trace_only m" "\<And>x. trace_only (f x)"
  shows "trace_only (bind m f)"
  unfolding trace_only_def
proof (intro allI impI)
  fix s r s'
  assume run: "bind m f s = (r, s')"
  then show "s' = s\<lparr>trace := trace s'\<rparr> \<and> (\<exists>evs. trace s' = trace s @ evs)"
  proof (cases rule: bind_cases)
    case (fail err)
    with trace_onlyD[OF assms(1)] show ?thesis by blast
  next
    case (go x s1)
    from trace_onlyD[OF assms(1) go(1)] obtain evs1 where
      a: "s1 = s\<lparr>trace := trace s1\<rparr>" "trace s1 = trace s @ evs1" by blast
    from trace_onlyD[OF assms(2) go(2)] obtain evs2 where
      b: "s' = s1\<lparr>trace := trace s'\<rparr>" "trace s' = trace s1 @ evs2" by blast
    from a(1) b(1) have "s' = s\<lparr>trace := trace s'\<rparr>"
      by (metis effects.update_convs(2) effects.surjective)
    with a(2) b(2) show ?thesis by simp
  qed
qed

lemma trace_only_api: "trace_only (api e st)"
  by (auto simp: api_def intro!: trace_only_bind trace_only_ret trace_only_raise trace_only_emit
      split: option.splits)

lemma trace_only_finished: "trace_only (finished f ev uuid q)"
  by (auto simp: finished_def intro!: trace_only_ret trace_only_call split: option.splits)

lemma trace_only_requirements_get: "trace_only (requirements_get rq n)"
  by (auto simp: requirements_get_def intro!: trace_only_ret trace_only_raise split: option.splits)

lemmas trace_only_intros = trace_only_bind trace_only_ret trace_only_raise trace_only_emit
  trace_only_call trace_only_api trace_only_finished trace_only_requirements_get

lemma trace_only_status_entries: "trace_only (status_entries e uuid rq xs d)"
  by (induction xs arbitrary: d) (auto intro!: trace_only_intros split: option.splits)

lemma finished_value:
  "finished f ev uuid q s = (r, s') \<Longrightarrow> test_value f uuid q = r"
  by (auto simp: finished_apply test_value_def split: option.splits)

lemma status_entries_result:
  "status_entries e uuid rq xs d0 s = (Inr d, s') \<Longrightarrow>
   (\<forall>n. n \<notin> (\<lambda>x. name (snd x)) ` set xs \<longrightarrow> d n = d0 n) \<and>
   (\<forall>n. ORA2_ASSESSMENTS e n = None \<longrightarrow> d n = d0 n) \<and>
   (\<forall>x \<in> set xs. ORA2_ASSESSMENTS e (name (snd x)) \<noteq> None \<longrightarrow>
      (\<exists>req v. rq = Some req \<and> d (name (snd x)) = Some v \<and> live_entry e uuid req (name (snd x)) v))"
proof (induction xs arbitrary: d0 s)
  case Nil
  then show ?case by (simp add: ret_def)
next
  case (Cons x xs)
  let ?n = "name (snd x)"
  show ?case
  proof (cases "ORA2_ASSESSMENTS e ?n")
    case None
    with Cons.prems obtain s1 where "status_entries e uuid rq xs d0 s1 = (Inr d, s')"
      by (auto simp: bind_apply api_apply)
    from Cons.IH[OF this] None show ?thesis by auto
  next
    case (Some p)
    with Cons.prems obtain m req c g s1 where
      m: "import_module e p = Some m" and rq: "rq = Some req" and
      c: "test_value (submitter_is_finished m) uuid (Some (dict_get req ?n [])) = Inr c" and
      g: "test_value (assessment_is_finished m) uuid (Some (dict_get req ?n [])) = Inr g" and
      rest: "status_entries e uuid rq xs (d0(?n \<mapsto> \<lparr>complete = c, graded = g\<rparr>)) s1 = (Inr d, s')"
      by (auto simp: bind_Inr_iff api_apply requirements_get_def ret_def raise_def
          split: option.splits dest!: finished_value)
    note IH = Cons.IH[OF rest]
    have here: "live_entry e uuid req ?n \<lparr>complete = c, graded = g\<rparr>"
      using Some m c g by (simp add: live_entry_def)
    have "\<exists>v. d ?n = Some v \<and> live_entry e uuid req ?n v"
    proof (cases "?n \<in> (\<lambda>x. name (snd x)) ` set xs")
      case True
      then obtain y where "y \<in> set xs" "name (snd y) = ?n" by auto
      with IH Some rq show ?thesis by (metis option.distinct(1) option.inject)
    next
      case False
      with IH have "d ?n = Some \<lparr>complete = c, graded = g\<rparr>" by simp
      with here show ?thesis by simp
    qed
    with IH Some rq show ?thesis by auto
  qed
qed

lemma fetched_set:
  "snd ` set (sort_key k (filter (\<lambda>x. p (snd x)) (enumerate 0 xs))) = {st \<in> set xs. p st}"
proof -
  have "snd ` set (enumerate 0 xs) = set xs"
    by (metis list.set_map map_snd_enumerate)
  then show ?thesis by auto
qed

lemma get_steps_synthesized:
  assumes "\<not> list_ex (recognized e) (steps s)" and "get_steps e s = (r, s')"
  shows "(steps s' = steps s \<and> (\<forall>f. r \<noteq> Inr f)) \<or>
         (steps s' = steps s @ [new_step ''peer'' 0] \<and> (\<forall>f. r \<noteq> Inr f)) \<or>
         (steps s' = steps s @ [new_step ''peer'' 0, new_step ''self'' 1] \<and>
          r = Inr (sort_key (\<lambda>x. order_num (snd x)) (enumerate 0 (steps s'))))"
proof -
  from assms(1) have "{st \<in> set (steps s). recognized e st} = {}"
    by (auto simp: list_ex_iff)
  with fetched_set[of "\<lambda>x. order_num (snd x)" "recognized e" "steps s"]
  have "set (sort_key (\<lambda>x. order_num (snd x))
                 (filter (\<lambda>x. recognized e (snd x)) (enumerate 0 (steps s)))) = {}"
    by simp
  then have empty: "sort_key (\<lambda>x. order_num (snd x))
                 (filter (\<lambda>x. recognized e (snd x)) (enumerate 0 (steps s))) = []"
    by (simp only: set_empty)
  from assms(2) show ?thesis
    by (auto simp add: get_steps_def bind_apply select_steps_apply empty insert_step_apply STATUS_apply
        ret_def new_step_def split: if_splits)
qed

lemma get_steps_rows:
  assumes "get_steps e s = (r, s')"
  shows "self s' = self s \<and> stored_status s' = stored_status s \<and> clock s' = clock s \<and>
         trace s' = trace s \<and>
         (\<exists>k. steps s' = steps s @ take k [new_step ''peer'' 0, new_step ''self'' 1]) \<and>
         (list_ex (recognized e) (steps s) \<longrightarrow> steps s' = steps s) \<and>
         (\<forall>fetched. r = Inr fetched \<longrightarrow>
            (\<forall>st \<in> set (steps s'). recognized e st \<longrightarrow> st \<in> snd ` set fetched))"
proof (cases "list_ex (recognized e) (steps s)")
  case True
  have "\<exists>k. steps s = steps s @ take k [new_step ''peer'' 0, new_step ''self'' 1]"
    by (rule exI[of _ 0]) simp
  with True assms get_steps_recognized[OF True] fetched_set[of _ "recognized e" "steps s"]
  show ?thesis by (auto split: if_splits)
next
  case False
  let ?p = "new_step ''peer'' 0" and ?s = "new_step ''self'' 1"
  note scalars = get_steps_effect[OF assms]
  have k0: "\<exists>k. steps s = steps s @ take k [?p, ?s]"
    by (rule exI[of _ 0]) simp
  have k1: "\<exists>k. steps s @ [?p] = steps s @ take k [?p, ?s]"
    by (rule exI[of _ 1]) simp
  have k2: "\<exists>k. steps s @ [?p, ?s] = steps s @ take k [?p, ?s]"
    by (rule exI[of _ 2]) simp
  have "snd ` set (enumerate 0 (steps s')) = set (steps s')"
    by (metis list.set_map map_snd_enumerate)
  then have all: "snd ` set (sort_key (\<lambda>x. order_num (snd x)) (enumerate 0 (steps s')))
               = set (steps s')"
    by (simp only: set_sort)
  from get_steps_synthesized[OF False assms]
  consider (a) "steps s' = steps s" "\<forall>f. r \<noteq> Inr f"
    | (b) "steps s' = steps s @ [?p]" "\<forall>f. r \<noteq> Inr f"
    | (c) "steps s' = steps s @ [?p, ?s]"
          "r = Inr (sort_key (\<lambda>x. order_num (snd x)) (enumerate 0 (steps s')))"
    by blast
  then show ?thesis
  proof cases
    case a
    with False k0 scalars show ?thesis by simp
  next
    case b
    with False k1 scalars show ?thesis by simp
  next
    case c
    with False k2 all scalars show ?thesis by simp
  qed
qed

text \<open>
  C10. \<open>status_details\<close> needs a requirements dictionary: on a workflow with at least
  one recognized step (whether or not its module loads) \<open>status_details(None)\<close> raises,
  having done no more than query the steps; the exception is \<open>AttributeError\<close> when storage works
  and the modules of the recognized steps load. \<open>AssessmentWorkflowStep.update\<close>, by
  contrast, accepts \<open>None\<close>: every completion test it calls is called with the
  requirements \<open>None\<close>.
\<close>

theorem status_details_needs_requirements:
  assumes "list_ex (recognized e) (steps s)"
  shows "(\<exists>err. status_details e None s = (Inl err, s\<lparr>db_log := db_log s @ [Select_steps]\<rparr>) \<and>
            (\<not> db_fault e Select_steps \<and> list_all (loads e) (filter (recognized e) (steps s))
               \<longrightarrow> err = AttributeError))
       \<and> (\<forall>uuid obj r s'. update e uuid None obj s = (r, s') \<longrightarrow>
            list_all passes_None (drop (length (trace s)) (trace s')))"
proof
  let ?fetched = "sort_key (\<lambda>x. order_num (snd x))
                    (filter (\<lambda>x. recognized e (snd x)) (enumerate 0 (steps s)))"
  let ?s1 = "s\<lparr>db_log := db_log s @ [Select_steps]\<rparr>"
  show "\<exists>err. status_details e None s = (Inl err, ?s1) \<and>
            (\<not> db_fault e Select_steps \<and> list_all (loads e) (filter (recognized e) (steps s))
               \<longrightarrow> err = AttributeError)"
  proof (cases "db_fault e Select_steps")
    case True
    with get_steps_recognized[OF assms] show ?thesis
      by (simp add: status_details_def bind_apply)
  next
    case False
    from fetched_nonempty[OF assms] obtain x xs where fx: "?fetched = x # xs"
      by (cases ?fetched) auto
    then have "x \<in> set ?fetched" by simp
    from fetched_subset[OF this] have x: "snd x \<in> set (steps s)" "recognized e (snd x)"
      by auto
    from status_entries_None[OF x(2)] obtain err where
      err: "status_entries e (submission_uuid (self s)) None (x # xs) Map.empty ?s1 = (Inl err, ?s1)"
           "loads e (snd x) \<longrightarrow> err = AttributeError"
      by blast
    from x have "list_all (loads e) (filter (recognized e) (steps s)) \<Longrightarrow> loads e (snd x)"
      by (auto simp: list_all_iff)
    with err False get_steps_recognized[OF assms] fx show ?thesis
      by (auto simp: status_details_def bind_apply)
  qed
next
  show "\<forall>uuid obj r s'. update e uuid None obj s = (r, s') \<longrightarrow>
            list_all passes_None (drop (length (trace s)) (trace s'))"
    using update_passes_None by blast
qed

theorem status_details_needs_requirements_witness:
  "list_ex (recognized default_env) (steps in_peer_step) \<and>
   \<not> db_fault default_env Select_steps \<and>
   list_all (loads default_env) (filter (recognized default_env) (steps in_peer_step)) \<and>
   status_details default_env None in_peer_step
     = (Inl AttributeError, in_peer_step\<lparr>db_log := [Select_steps]\<rparr>) \<and>
   fst (update_from_assessments default_env None in_peer_step) = Inr () \<and>
   list_all passes_None (trace (snd (update_from_assessments default_env None in_peer_step)))"
proof -
  have h: "list_ex (recognized default_env) (steps in_peer_step)"
    by code_simp
  have c: "\<not> db_fault default_env Select_steps \<and>
      list_all (loads default_env) (filter (recognized default_env) (steps in_peer_step)) \<and>
      fst (update_from_assessments default_env None in_peer_step) = Inr () \<and>
      list_all passes_None (trace (snd (update_from_assessments default_env None in_peer_step)))"
    by code_simp
  have l: "db_log in_peer_step @ [Select_steps] = [Select_steps]"
    by code_simp
  from status_details_needs_requirements [OF h] c h l show ?thesis by auto
qed

text \<open>
  C9, as the claim states it, fails: for a workflow whose only stored step has no
  configured module, \<open>status_details\<close> returns a mapping with no entry for that step
  (not an entry with both flags true), and it stores two new step rows, \<open>peer\<close> and
  \<open>self\<close>.
\<close>

theorem status_details_skips_and_stores_counterexample:
  "steps only_orphan = [orphan] \<and>
   ORA2_ASSESSMENTS default_env (name orphan) = None \<and>
   (case fst (status_details default_env (Some Map.empty) only_orphan) of
      Inl err \<Rightarrow> False
    | Inr d \<Rightarrow> d (name orphan) = None \<and> d ''peer'' = Some \<lparr>complete = True, graded = True\<rparr>) \<and>
   steps (snd (status_details default_env (Some Map.empty) only_orphan))
     = [orphan, new_step ''peer'' 0, new_step ''self'' 1]"
  by code_simp


text \<open>
  C9, amended. \<open>status_details\<close> changes no field of the workflow and no existing step
  row, sets no timestamp and does not read the clock; the only stored change it can make
  is to append the default rows \<open>peer\<close> and \<open>self\<close> when the workflow has no recognized
  step. When it returns a mapping, every step whose name is configured has an entry
  \<open>{complete, graded}\<close> holding what the module's tests answer now (true for a test the
  module omits), and no name without a configured module has an entry.
\<close>

theorem status_details_projection:
  assumes run: "status_details e rq s = (r, s')"
  shows "self s' = self s \<and> stored_status s' = stored_status s \<and> clock s' = clock s \<and>
         (\<exists>k. steps s' = steps s @ take k [new_step ''peer'' 0, new_step ''self'' 1]) \<and>
         (list_ex (recognized e) (steps s) \<longrightarrow> steps s' = steps s) \<and>
         (\<forall>d. r = Inr d \<longrightarrow>
            (\<forall>n. ORA2_ASSESSMENTS e n = None \<longrightarrow> d n = None) \<and>
            (\<forall>st \<in> set (steps s'). recognized e st \<longrightarrow>
               (\<exists>req v. rq = Some req \<and> d (name st) = Some v \<and>
                  live_entry e (submission_uuid (self s)) req (name st) v)))"
proof -
  let ?uuid = "submission_uuid (self s)"
  from run have "bind (get_steps e) (\<lambda>xs. status_entries e ?uuid rq xs Map.empty) s = (r, s')"
    by (simp add: status_details_def)
  then show ?thesis
  proof (cases rule: bind_cases)
    case (fail err)
    with get_steps_rows[OF fail(1)] show ?thesis by simp
  next
    case (go xs s1)
    note rows = get_steps_rows[OF go(1)]
    from trace_onlyD[OF trace_only_status_entries go(2)] have same: "s' = s1\<lparr>trace := trace s'\<rparr>"
      by simp
    then have fields: "self s' = self s1" "stored_status s' = stored_status s1" "clock s' = clock s1"
      "steps s' = steps s1"
      by (metis wstate.select_convs(1) wstate.surjective wstate.update_convs(1) effects.update_convs(2)
          effects.select_convs(1) wstate.select_convs(2) wstate.select_convs(3))+
    have "(\<forall>n. ORA2_ASSESSMENTS e n = None \<longrightarrow> d n = None) \<and>
            (\<forall>st \<in> set (steps s'). recognized e st \<longrightarrow>
               (\<exists>req v. rq = Some req \<and> d (name st) = Some v \<and> live_entry e ?uuid req (name st) v))"
      if "r = Inr d" for d
    proof -
      from that go(2) have "status_entries e ?uuid rq xs Map.empty s1 = (Inr d, s')" by simp
      note res = status_entries_result[OF this]
      have "\<exists>req v. rq = Some req \<and> d (name st) = Some v \<and> live_entry e ?uuid req (name st) v"
        if st: "st \<in> set (steps s')" "recognized e st" for st
      proof -
        from rows st fields obtain x where "x \<in> set xs" "snd x = st" by auto
        with res st(2) show ?thesis by (auto simp: recognized_def)
      qed
      with res show ?thesis by simp
    qed
    with rows fields show ?thesis by simp
  qed
qed


theorem status_details_projection_witness:
  "status_details default_env (Some Map.empty) in_peer_step
     = (fst (status_details default_env (Some Map.empty) in_peer_step),
        in_peer_step\<lparr>trace := [Call_submitter_is_finished ''peer'' ''u1'' (Some []),
                                Call_assessment_is_finished ''peer'' ''u1'' (Some []),
                                Call_submitter_is_finished ''self'' ''u1'' (Some []),
                                Call_assessment_is_finished ''self'' ''u1'' (Some [])],
                      db_log := [Select_steps]\<rparr>) \<and>
   list_ex (recognized default_env) (steps in_peer_step) \<and>
   ORA2_ASSESSMENTS default_env ''retired'' = None \<and>
   (case fst (status_details default_env (Some Map.empty) in_peer_step) of
      Inl err \<Rightarrow> False
    | Inr d \<Rightarrow> d ''retired'' = None \<and>
               d ''peer'' = Some \<lparr>complete = True, graded = True\<rparr> \<and>
               d ''self'' = Some \<lparr>complete = True, graded = True\<rparr>) \<and>
   live_entry default_env ''u1'' Map.empty ''peer'' \<lparr>complete = True, graded = True\<rparr>"
proof -
  have run: "status_details default_env (Some Map.empty) in_peer_step
     = (fst (status_details default_env (Some Map.empty) in_peer_step),
        in_peer_step\<lparr>trace := [Call_submitter_is_finished ''peer'' ''u1'' (Some []),
                                Call_assessment_is_finished ''peer'' ''u1'' (Some []),
                                Call_submitter_is_finished ''self'' ''u1'' (Some []),
                                Call_assessment_is_finished ''self'' ''u1'' (Some [])],
                      db_log := [Select_steps]\<rparr>)"
    by (rule prod_eqI) (simp, code_simp)
  have rest: "list_ex (recognized default_env) (steps in_peer_step) \<and>
   ORA2_ASSESSMENTS default_env ''retired'' = None \<and>
   (case fst (status_details default_env (Some Map.empty) in_peer_step) of
      Inl err \<Rightarrow> False
    | Inr d \<Rightarrow> d ''retired'' = None \<and>
               d ''peer'' = Some \<lparr>complete = True, graded = True\<rparr> \<and>
               d ''self'' = Some \<lparr>complete = True, graded = True\<rparr>) \<and>
   live_entry default_env ''u1'' Map.empty ''peer'' \<lparr>complete = True, graded = True\<rparr>"
    by code_simp
  from status_details_projection [OF run] run rest show ?thesis by blast
qed


section \<open>The asynchronous listener\<close>

lemma try_except_apply:
  "try_except m h s = (case m s of (Inl err, s') \<Rightarrow> h err s' | (Inr x, s') \<Rightarrow> (Inr x, s'))"
  by (simp add: try_except_def)

lemma objects_get_apply:
  "objects_get e uuid s =
     (if db_fault e (Select_workflow uuid) then Inl DatabaseError
      else case workflows s uuid of None \<Rightarrow> Inl DoesNotExist | Some r \<Rightarrow> Inr (instance_of uuid r, r),
      s\<lparr>db_log := db_log s @ [Select_workflow uuid]\<rparr>)"
  by (simp add: objects_get_def bind_apply db_guard_apply split: option.splits)


text \<open>
  C8. \<open>update_workflow_async\<close> returns normally on every input. Without the keyword
  \<open>submission_uuid\<close> it logs an error and does nothing else; when the lookup fails in
  storage, or finds no workflow, it logs the exception; when a workflow is found, it
  runs \<open>update_from_assessments(None)\<close> on it, and any exception of that run is logged
  and dropped, what the run had stored staying stored.
\<close>

theorem update_workflow_async_never_raises:
  "fst (update_workflow_async e kwargs s) = Inr () \<and>
   (kwargs ''submission_uuid'' = None \<longrightarrow>
      snd (update_workflow_async e kwargs s) = s\<lparr>trace := trace s @ [Log Error Signal_without_uuid]\<rparr>) \<and>
   (\<forall>uuid. kwargs ''submission_uuid'' = Some uuid \<longrightarrow>
      (db_fault e (Select_workflow uuid) \<longrightarrow>
         snd (update_workflow_async e kwargs s)
           = s\<lparr>db_log := db_log s @ [Select_workflow uuid],
               trace := trace s @ [Log Exception (Database_error_occurred uuid)]\<rparr>) \<and>
      (\<not> db_fault e (Select_workflow uuid) \<and> workflows s uuid = None \<longrightarrow>
         snd (update_workflow_async e kwargs s)
           = s\<lparr>db_log := db_log s @ [Select_workflow uuid],
               trace := trace s @ [Log Exception (Could_not_retrieve_workflow uuid)]\<rparr>) \<and>
      (\<forall>row. \<not> db_fault e (Select_workflow uuid) \<and> workflows s uuid = Some row \<longrightarrow>
         snd (update_workflow_async e kwargs s)
           = (case with_row (instance_of uuid row) row (update_from_assessments e None)
                     (s\<lparr>db_log := db_log s @ [Select_workflow uuid]\<rparr>) of
                (Inr x, s1) \<Rightarrow> s1
              | (Inl err, s1) \<Rightarrow> s1\<lparr>trace := trace s1 @ [async_handler uuid err]\<rparr>)))"
  by (auto simp: update_workflow_async_def try_except_apply emit_apply bind_apply objects_get_apply
      ret_def async_handler_def split: option.splits prod.splits sum.splits)

theorem update_workflow_async_never_raises_witness:
  "fst (update_workflow_async default_env Map.empty stored_state) = Inr () \<and>
   trace (snd (update_workflow_async default_env Map.empty stored_state)) = [Log Error Signal_without_uuid] \<and>
   fst (update_workflow_async default_env [''submission_uuid'' \<mapsto> ''u2''] stored_state) = Inr () \<and>
   workflows stored_state ''u2'' = None \<and>
   trace (snd (update_workflow_async default_env [''submission_uuid'' \<mapsto> ''u2''] stored_state))
     = [Log Exception (Could_not_retrieve_workflow ''u2'')] \<and>
   fst (update_workflow_async faulty_env [''submission_uuid'' \<mapsto> ''u1''] stored_state) = Inr () \<and>
   db_fault faulty_env (Select_workflow ''u1'') \<and>
   trace (snd (update_workflow_async faulty_env [''submission_uuid'' \<mapsto> ''u1''] stored_state))
     = [Log Exception (Database_error_occurred ''u1'')] \<and>
   fst (update_workflow_async broken_env [''submission_uuid'' \<mapsto> ''u1''] stored_state) = Inr () \<and>
   \<not> db_fault broken_env (Select_workflow ''u1'') \<and>
   workflows stored_state ''u1'' \<noteq> None \<and>
   last (trace (snd (update_workflow_async broken_env [''submission_uuid'' \<mapsto> ''u1''] stored_state)))
     = Log Exception (Unexpected_error_occurred ''u1'') \<and>
   fst (update_workflow_async default_env [''submission_uuid'' \<mapsto> ''u1''] stored_state) = Inr () \<and>
   workflows (snd (update_workflow_async default_env [''submission_uuid'' \<mapsto> ''u1''] stored_state)) ''u1''
     = Some \<lparr>row_status = ''peer'', row_course_id = ''c'', row_item_id = ''i'',
             row_steps = [new_step ''peer'' 0,
                          (new_step ''self'' 1)\<lparr>submitter_completed_at := Some 0,
                                                assessment_completed_at := Some 1\<rparr>]\<rparr>"
proof -
  have ev: "trace (snd (update_workflow_async default_env Map.empty stored_state)) = [Log Error Signal_without_uuid] \<and>
   workflows stored_state ''u2'' = None \<and>
   trace (snd (update_workflow_async default_env [''submission_uuid'' \<mapsto> ''u2''] stored_state))
     = [Log Exception (Could_not_retrieve_workflow ''u2'')] \<and>
   db_fault faulty_env (Select_workflow ''u1'') \<and>
   trace (snd (update_workflow_async faulty_env [''submission_uuid'' \<mapsto> ''u1''] stored_state))
     = [Log Exception (Database_error_occurred ''u1'')] \<and>
   \<not> db_fault broken_env (Select_workflow ''u1'') \<and>
   workflows stored_state ''u1'' \<noteq> None \<and>
   last (trace (snd (update_workflow_async broken_env [''submission_uuid'' \<mapsto> ''u1''] stored_state)))
     = Log Exception (Unexpected_error_occurred ''u1'') \<and>
   workflows (snd (update_workflow_async default_env [''submission_uuid'' \<mapsto> ''u1''] stored_state)) ''u1''
     = Some \<lparr>row_status = ''peer'', row_course_id = ''c'', row_item_id = ''i'',
             row_steps = [new_step ''peer'' 0,
                          (new_step ''self'' 1)\<lparr>submitter_completed_at := Some 0,
                                                assessment_completed_at := Some 1\<rparr>]\<rparr>"
    by code_simp
  note t1 = update_workflow_async_never_raises [of default_env Map.empty stored_state, THEN conjunct1]
  note t2 = update_workflow_async_never_raises
    [of default_env "[''submission_uuid'' \<mapsto> ''u2'']" stored_state, THEN conjunct1]
  note t3 = update_workflow_async_never_raises
    [of faulty_env "[''submission_uuid'' \<mapsto> ''u1'']" stored_state, THEN conjunct1]
  note t4 = update_workflow_async_never_raises
    [of broken_env "[''submission_uuid'' \<mapsto> ''u1'']" stored_state, THEN conjunct1]
  note t5 = update_workflow_async_never_raises
    [of default_env "[''submission_uuid'' \<mapsto> ''u1'']" stored_state, THEN conjunct1]
  show ?thesis
    by (simp only: ev t1 t2 t3 t4 t5 simp_thms)
qed


section \<open>Starting a workflow\<close>

lemma clean_step_refl: "trace s' = trace s \<Longrightarrow> db_log s' = db_log s \<Longrightarrow> clean_step e s s'"
  by (simp add: clean_step_def)

lemma clean_step_trans [trans]:
  "clean_step e s s1 \<Longrightarrow> clean_step e s1 s2 \<Longrightarrow> clean_step e s s2"
  by (fastforce simp: clean_step_def)

lemma clean_step_event:
  "call_ok e ev \<Longrightarrow> trace s' = trace s @ [ev] \<Longrightarrow> db_log s' = db_log s \<Longrightarrow> clean_step e s s'"
  by (simp add: clean_step_def)

lemma clean_step_op:
  "\<not> db_fault e op \<Longrightarrow> trace s' = trace s \<Longrightarrow> db_log s' = db_log s @ [op] \<Longrightarrow> clean_step e s s'"
  by (simp add: clean_step_def)

lemma update_clean:
  assumes "update e uuid rq obj s = (Inr obj', s')"
  shows "clean_step e s s'"
  using assms
  by (auto simp add: update_unfold clean_step_def call_ok_def module_call_def returned_def
      split: option.splits sum.splits if_splits prod.splits)

lemma update_steps_clean:
  "update_steps e uuid rq xs s = (Inr xs', s') \<Longrightarrow> clean_step e s s'"
proof (induction xs arbitrary: s xs')
  case Nil
  then show ?case by (simp add: ret_def clean_step_refl)
next
  case (Cons x xs)
  then obtain x' s1 ys where "update e uuid rq x s = (Inr x', s1)"
    "update_steps e uuid rq xs s1 = (Inr ys, s')"
    by (auto simp: bind_Inr_iff ret_def)
  with Cons.IH update_clean show ?case by (blast intro: clean_step_trans)
qed

lemma get_steps_clean:
  assumes "get_steps e s = (Inr fetched, s')"
  shows "clean_step e s s'"
  using assms
  by (auto simp: get_steps_def bind_apply select_steps_apply insert_step_apply STATUS_apply ret_def
      clean_step_def new_step_def split: if_splits prod.splits sum.splits)

lemma api_clean:
  assumes "api e st s = (Inr a, s')"
  shows "clean_step e s s' \<and>
         a = (case ORA2_ASSESSMENTS e (name st) of None \<Rightarrow> None | Some p \<Rightarrow> import_module e p)"
  using assms
  by (auto simp: api_apply clean_step_def call_ok_def split: option.splits)

lemma notify_start_clean:
  assumes "notify_start e uuid target s = (Inr u, s')"
  shows "clean_step e s s'"
  using assms
  by (auto simp: notify_start_def ret_def bind_apply api_apply call_apply getattr_def
      clean_step_def call_ok_def module_call_def returned_def
      split: option.splits prod.splits sum.splits)

lemma find_score_clean:
  "find_score e uuid rq d ns s = (Inr sc, s') \<Longrightarrow>
   (\<forall>n x. d n = Some x \<longrightarrow> name (snd x) = n) \<Longrightarrow> clean_step e s s'"
proof (induction ns arbitrary: s)
  case Nil
  then show ?case by (simp add: ret_def clean_step_refl)
next
  case (Cons n ns)
  show ?case
  proof (cases "d n")
    case None
    with Cons show ?thesis by simp
  next
    case (Some x)
    with Cons.prems(2) have nx: "name (snd x) = n" by blast
    from Cons.prems(1) Some obtain a s1 where
      a: "api e (snd x) s = (Inr a, s1)" and
      rest: "(case getattr a get_score of
               None \<Rightarrow> find_score e uuid rq d ns
             | Some f \<Rightarrow> call (Call_get_score n uuid (step_reqs_of rq n)) (f uuid (step_reqs_of rq n))) s1
             = (Inr sc, s')"
      by (auto simp: bind_Inr_iff)
    note a' = api_clean[OF a]
    show ?thesis
    proof (cases "getattr a get_score")
      case None
      with rest Cons.IH[OF _ Cons.prems(2)] a' show ?thesis
        by (auto intro: clean_step_trans)
    next
      case (Some f)
      with rest a' nx have "clean_step e s1 s'"
        by (auto simp: call_apply getattr_def clean_step_def call_ok_def module_call_def returned_def
            split: option.splits)
      with a' show ?thesis by (blast intro: clean_step_trans)
    qed
  qed
qed

lemma set_score_clean:
  assumes "set_score e uuid sc s = (Inr u, s')"
  shows "clean_step e s s'"
  using assms
  by (auto simp: set_score_apply clean_step_def call_ok_def returned_def)

lemma try_score_clean:
  assumes "try_score e uuid rq xs n s = (Inr ns, s')"
  shows "clean_step e s s'"
proof (cases "n = ''waiting'' \<and> list_all (\<lambda>x. assessment_completed_at (snd x) \<noteq> None) xs")
  case False
  with assms show ?thesis by (auto simp: try_score_def ret_def clean_step_refl)
next
  case True
  have names: "\<forall>n x. step_for_name xs n = Some x \<longrightarrow> name (snd x) = n"
    using step_for_name_SomeD by blast
  from True assms obtain sc s1 where
    f: "find_score e uuid rq (step_for_name xs) (ASSESSMENT_SCORE_PRIORITY e) s = (Inr sc, s1)" and
    rest: "(case sc of None \<Rightarrow> ret n | Some v \<Rightarrow> bind (set_score e uuid v) (\<lambda>_. ret ''done'')) s1
             = (Inr ns, s')"
    by (auto simp: try_score_def bind_Inr_iff)
  note c1 = find_score_clean[OF f names]
  show ?thesis
  proof (cases sc)
    case None
    with rest c1 show ?thesis by (simp add: ret_def)
  next
    case (Some v)
    with rest obtain u where "set_score e uuid v s1 = (Inr u, s')"
      by (auto simp: bind_Inr_iff ret_def)
    from set_score_clean[OF this] c1 show ?thesis by (rule clean_step_trans[rotated])
  qed
qed

lemma store_status_clean:
  assumes "store_status e ns s = (Inr u, s')"
  shows "clean_step e s s'"
  using assms
  by (auto simp: store_status_def ret_def bind_apply set_status_apply save_workflow_apply emit_apply
      clean_step_def call_ok_def split: if_splits)

lemma update_from_assessments_clean:
  assumes "update_from_assessments e rq s = (Inr u, s')"
  shows "clean_step e s s'"
proof (cases "status (self s) = ''done''")
  case True
  with assms show ?thesis by (simp add: update_from_assessments_def ret_def clean_step_refl)
next
  case False
  with assms obtain fetched s1 xs s2 s3 ns s4 where
    g: "get_steps e s = (Inr fetched, s1)" and
    u: "update_steps e (submission_uuid (self s)) rq fetched s1 = (Inr xs, s2)" and
    n: "notify_start e (submission_uuid (self s)) (step_for_name xs (first_incomplete xs)) s2 = (Inr (), s3)" and
    t: "try_score e (submission_uuid (self s)) rq xs (first_incomplete xs) s3 = (Inr ns, s4)" and
    st: "store_status e ns s4 = (Inr (), s')"
    by (auto simp: update_from_assessments_def Let_def bind_Inr_iff)
  note get_steps_clean[OF g]
  also note update_steps_clean[OF u]
  also note notify_start_clean[OF n]
  also note try_score_clean[OF t]
  also note store_status_clean[OF st]
  finally show ?thesis .
qed

lemma add_steps_clean:
  "add_steps e ns i s = (Inr xs, s') \<Longrightarrow> clean_step e s s' \<and> map (\<lambda>x. name (snd x)) xs = ns"
proof (induction ns arbitrary: i s xs)
  case Nil
  then show ?case by (auto simp: ret_def clean_step_refl)
next
  case (Cons n ns)
  then obtain x s1 ys where
    i: "insert_step e (new_step n i) s = (Inr x, s1)" and
    r: "add_steps e ns (Suc i) s1 = (Inr ys, s')" and xs: "xs = x # ys"
    by (auto simp: bind_Inr_iff ret_def)
  from i have "clean_step e s s1 \<and> name (snd x) = n"
    by (auto simp: insert_step_apply clean_step_def new_step_def split: if_splits)
  with Cons.IH[OF r] xs show ?case by (auto intro: clean_step_trans)
qed

lemma api_loadable:
  assumes "api e st s = (Inr a, s')"
  shows "loadable e (name st)"
  using assms by (auto simp: api_apply loadable_def split: option.splits)

lemma hook_clean:
  assumes "(case h of None \<Rightarrow> ret () | Some f \<Rightarrow> call ev (f a)) s = (Inr u, s')"
    and "\<And>f. h = Some f \<Longrightarrow> returned (f a) \<Longrightarrow> call_ok e ev"
  shows "clean_step e s s'"
  using assms
  by (cases h) (auto simp: ret_def call_apply clean_step_def returned_def)

lemma init_steps_clean:
  "init_steps e uuid params xs started s = (Inr u, s') \<Longrightarrow>
   clean_step e s s' \<and> list_all (\<lambda>x. loadable e (name (snd x))) xs"
proof (induction xs arbitrary: started s)
  case Nil
  then show ?case by (simp add: ret_def clean_step_refl)
next
  case (Cons x xs)
  let ?n = "name (snd x)"
  from Cons.prems obtain a s1 where
    a: "api e (snd x) s = (Inr a, s1)" and
    rest: "(case a of
         None \<Rightarrow> init_steps e uuid params xs started
       | Some m \<Rightarrow>
           bind (case on_init m of
                   None \<Rightarrow> ret ()
                 | Some f \<Rightarrow> call (Call_on_init ?n uuid (dict_get params ?n [])) (f uuid (dict_get params ?n []))) (\<lambda>_.
           if \<not> started then
             bind (set_status ?n) (\<lambda>_.
             bind (save_workflow e) (\<lambda>_.
             bind (case on_start m of
                     None \<Rightarrow> ret ()
                   | Some f \<Rightarrow> call (Call_on_start ?n uuid) (f uuid)) (\<lambda>_.
             init_steps e uuid params xs True)))
           else init_steps e uuid params xs started)) s1 = (Inr u, s')"
    by (auto simp: bind_Inr_iff)
  note a' = api_clean[OF a]
  show ?case
  proof (cases a)
    case None
    note l = api_loadable[OF a]
    from None rest Cons.IH a' l show ?thesis by (auto intro: clean_step_trans)
  next
    case (Some m)
    note l = api_loadable[OF a]
    from Some a' have res: "module_call e ?n ok = ok m" for ok
      by (auto simp: module_call_def split: option.splits)
    from Some rest obtain s2 where
      oi: "(case on_init m of
                   None \<Rightarrow> ret ()
                 | Some f \<Rightarrow> call (Call_on_init ?n uuid (dict_get params ?n [])) (f uuid (dict_get params ?n []))) s1
             = (Inr (), s2)" and
      rest2: "(if \<not> started then
             bind (set_status ?n) (\<lambda>_.
             bind (save_workflow e) (\<lambda>_.
             bind (case on_start m of
                     None \<Rightarrow> ret ()
                   | Some f \<Rightarrow> call (Call_on_start ?n uuid) (f uuid)) (\<lambda>_.
             init_steps e uuid params xs True)))
           else init_steps e uuid params xs started) s2 = (Inr u, s')"
      by (auto simp: bind_Inr_iff)
    have c12: "clean_step e s1 s2"
      using oi by (cases "on_init m")
        (auto simp: ret_def call_apply clean_step_def call_ok_def res returned_def)
    show ?thesis
    proof (cases started)
      case True
      with rest2 Cons.IH have "clean_step e s2 s' \<and> list_all (\<lambda>x. loadable e (name (snd x))) xs"
        by simp
      with a' c12 l show ?thesis by (auto intro: clean_step_trans)
    next
      case False
      with rest2 obtain s3 s4 s5 where
        st: "set_status ?n s2 = (Inr (), s3)" and
        sv: "save_workflow e s3 = (Inr (), s4)" and
        os: "(case on_start m of
                     None \<Rightarrow> ret ()
                   | Some f \<Rightarrow> call (Call_on_start ?n uuid) (f uuid)) s4 = (Inr (), s5)" and
        r3: "init_steps e uuid params xs True s5 = (Inr u, s')"
        by (auto simp: bind_Inr_iff)
      from st have c23: "clean_step e s2 s3" by (auto simp: set_status_apply clean_step_def)
      from sv have c34: "clean_step e s3 s4"
        by (auto simp: save_workflow_apply clean_step_def split: if_splits)
      have c45: "clean_step e s4 s5"
        using os by (cases "on_start m")
          (auto simp: ret_def call_apply clean_step_def call_ok_def res returned_def)
      from Cons.IH[OF r3] have c5: "clean_step e s5 s'" and ls: "list_all (\<lambda>x. loadable e (name (snd x))) xs"
        by simp_all
      from a' have "clean_step e s s1" by simp
      also note c12 also note c23 also note c34 also note c45 also note c5
      finally show ?thesis using l ls by simp
    qed
  qed
qed

lemma clean_step_drop:
  assumes "clean_step e s s'"
  shows "list_all (call_ok e) (drop (length (trace s)) (trace s')) \<and>
         list_all (\<lambda>op. \<not> db_fault e op) (drop (length (db_log s)) (db_log s'))"
  using assms by (auto simp: clean_step_def)

lemma objects_create_apply:
  "objects_create e uuid sub s =
     (if db_fault e (Insert_workflow uuid) \<or> workflows s uuid \<noteq> None
      then (Inl DatabaseError, s\<lparr>db_log := db_log s @ [Insert_workflow uuid]\<rparr>)
      else (Inr (instance_of uuid \<lparr>row_status = ''waiting'', row_course_id = sub_course_id sub,
                                   row_item_id = sub_item_id sub, row_steps = []\<rparr>,
                 \<lparr>row_status = ''waiting'', row_course_id = sub_course_id sub,
                  row_item_id = sub_item_id sub, row_steps = []\<rparr>),
            s\<lparr>db_log := db_log s @ [Insert_workflow uuid],
              workflows := (workflows s)(uuid \<mapsto>
                \<lparr>row_status = ''waiting'', row_course_id = sub_course_id sub,
                 row_item_id = sub_item_id sub, row_steps = []\<rparr>)\<rparr>))"
  by (simp add: objects_create_def bind_apply db_guard_apply Let_def)

lemma start_body_clean:
  assumes "bind (add_steps e step_names 0) (\<lambda>workflow_steps.
           bind (init_steps e uuid params workflow_steps False) (\<lambda>_.
           update_from_assessments e None)) t = (Inr u, t')"
  shows "clean_step e t t' \<and> list_all (loadable e) step_names"
proof -
  from assms obtain xs t1 t2 where
    a: "add_steps e step_names 0 t = (Inr xs, t1)" and
    i: "init_steps e uuid params xs False t1 = (Inr (), t2)" and
    u: "update_from_assessments e None t2 = (Inr u, t')"
    by (auto simp: bind_Inr_iff)
  from add_steps_clean[OF a] have names: "map (\<lambda>x. name (snd x)) xs = step_names" by simp
  from init_steps_clean[OF i] have "list_all (\<lambda>n. loadable e n) (map (\<lambda>x. name (snd x)) xs)"
    by (simp add: list_all_iff)
  with names have l: "list_all (loadable e) step_names" by simp
  from add_steps_clean[OF a] have "clean_step e t t1" by simp
  also from init_steps_clean[OF i] have "clean_step e t1 t2" by simp
  also note update_from_assessments_clean[OF u]
  finally show ?thesis using l by simp
qed


section \<open>The error of a failed run\<close>

lemma stops_call:
  "trace s' = trace s @ [ev] \<Longrightarrow> db_log s' = db_log s \<Longrightarrow> call_error e ev = Some err \<Longrightarrow>
   stops_with e bad s s' err"
  unfolding stops_with_def
  by (rule exI[of _ "[ev]"], rule exI[of _ "[]"]) simp

lemma stops_op:
  "trace s' = trace s \<Longrightarrow> db_log s' = db_log s @ [op] \<Longrightarrow> bad op \<Longrightarrow>
   stops_with e bad s s' DatabaseError"
  unfolding stops_with_def
  by (rule exI[of _ "[]"], rule exI[of _ "[op]"]) simp

lemma stops_config:
  "trace s' = trace s \<Longrightarrow> db_log s' = db_log s \<Longrightarrow> config_error e err \<Longrightarrow>
   stops_with e bad s s' err"
  unfolding stops_with_def
  by (rule exI[of _ "[]"], rule exI[of _ "[]"]) simp

lemma clean_then_stops:
  assumes "clean_step e s s1" and "stops_with e bad s1 s' err"
  shows "stops_with e bad s s' err"
proof -
  from assms(1) obtain evs1 ops1 where
    c: "trace s1 = trace s @ evs1" "db_log s1 = db_log s @ ops1"
       "list_all (call_ok e) evs1" "list_all (\<lambda>op. \<not> db_fault e op) ops1"
    by (auto simp: clean_step_def)
  from assms(2) obtain evs2 ops2 where
    t: "trace s' = trace s1 @ evs2" "db_log s' = db_log s1 @ ops2" and
    d: "(\<exists>evs0 ev. evs2 = evs0 @ [ev] \<and> list_all (call_ok e) evs0 \<and> call_error e ev = Some err \<and>
            list_all (\<lambda>op. \<not> db_fault e op) ops2) \<or>
         (\<exists>ops0 op. ops2 = ops0 @ [op] \<and> list_all (\<lambda>op. \<not> db_fault e op) ops0 \<and> bad op \<and>
            err = DatabaseError \<and> list_all (call_ok e) evs2) \<or>
         (list_all (call_ok e) evs2 \<and> list_all (\<lambda>op. \<not> db_fault e op) ops2 \<and> config_error e err)"
    unfolding stops_with_def by blast
  have tr: "trace s' = trace s @ (evs1 @ evs2)" "db_log s' = db_log s @ (ops1 @ ops2)"
    using c t by simp_all
  from d consider
    (call) evs0 ev where "evs2 = evs0 @ [ev]" "list_all (call_ok e) evs0" "call_error e ev = Some err"
      "list_all (\<lambda>op. \<not> db_fault e op) ops2"
    | (op) ops0 op where "ops2 = ops0 @ [op]" "list_all (\<lambda>op. \<not> db_fault e op) ops0" "bad op"
      "err = DatabaseError" "list_all (call_ok e) evs2"
    | (config) "list_all (call_ok e) evs2" "list_all (\<lambda>op. \<not> db_fault e op) ops2" "config_error e err"
    by blast
  then show ?thesis
  proof cases
    case call
    then have "evs1 @ evs2 = (evs1 @ evs0) @ [ev]" "list_all (call_ok e) (evs1 @ evs0)"
      "list_all (\<lambda>op. \<not> db_fault e op) (ops1 @ ops2)"
      using c by simp_all
    with tr call(3) show ?thesis unfolding stops_with_def by blast
  next
    case op
    then have "ops1 @ ops2 = (ops1 @ ops0) @ [op]" "list_all (\<lambda>op. \<not> db_fault e op) (ops1 @ ops0)"
      "list_all (call_ok e) (evs1 @ evs2)"
      using c by simp_all
    with tr op(3,4) show ?thesis unfolding stops_with_def by blast
  next
    case config
    then have "list_all (call_ok e) (evs1 @ evs2)" "list_all (\<lambda>op. \<not> db_fault e op) (ops1 @ ops2)"
      using c by simp_all
    with tr config(3) show ?thesis unfolding stops_with_def by blast
  qed
qed

lemma outcome_Inr: "outcome e bad s (Inr x) s' = clean_step e s s'"
  by (simp add: outcome_def)

lemma outcome_Inl: "outcome e bad s (Inl err) s' = stops_with e bad s s' err"
  by (simp add: outcome_def)

lemma outcome_after:
  "clean_step e s s1 \<Longrightarrow> outcome e bad s1 r s' \<Longrightarrow> outcome e bad s r s'"
  by (cases r) (auto simp: outcome_def intro: clean_step_trans clean_then_stops)

lemma outcome_bind:
  assumes run: "bind m f s = (r, s')"
    and first: "\<And>r1 s1. m s = (r1, s1) \<Longrightarrow> outcome e bad s r1 s1"
    and rest: "\<And>x s1. m s = (Inr x, s1) \<Longrightarrow> f x s1 = (r, s') \<Longrightarrow> outcome e bad s1 r s'"
  shows "outcome e bad s r s'"
  using run
proof (cases rule: bind_cases)
  case (fail err)
  from first[OF fail(1)] have "stops_with e bad s s' err" by (simp add: outcome_Inl)
  with fail(2) show ?thesis by (simp add: outcome_Inl)
next
  case (go x s1)
  from first[OF go(1)] have "clean_step e s s1" by (simp add: outcome_Inr)
  with rest[OF go] show ?thesis by (rule outcome_after[rotated])
qed

lemma outcome_ret: "ret x s = (r, s') \<Longrightarrow> outcome e bad s r s'"
  by (auto simp: ret_def outcome_def clean_step_refl)

lemma outcome_same:
  "trace s' = trace s \<Longrightarrow> db_log s' = db_log s \<Longrightarrow> outcome e bad s (Inr x) s'"
  by (simp add: outcome_Inr clean_step_refl)

lemma api_resolved: "api e st s = (Inr a, s') \<Longrightarrow> a = resolved e (name st)"
  by (auto simp: api_apply resolved_def split: option.splits)

lemma api_outcome:
  assumes "api e st s = (r, s')"
  shows "outcome e bad s r s'"
proof (cases r)
  case (Inr a)
  with assms show ?thesis by (simp add: outcome_Inr api_clean[THEN conjunct1])
next
  case (Inl err)
  with assms obtain p where "ORA2_ASSESSMENTS e (name st) = Some p" "import_module e p = None"
    "err = load_error e (name st) p" and t: "trace s' = trace s" "db_log s' = db_log s"
    by (auto simp: api_apply load_error_def split: option.splits)
  then have "config_error e err" unfolding config_error_def by blast
  with t show ?thesis using Inl by (simp add: outcome_Inl stops_config)
qed

lemma call_outcome:
  assumes "call ev r0 s = (r, s')"
    and "case r0 of Inl err \<Rightarrow> call_error e ev = Some err | Inr x \<Rightarrow> call_ok e ev"
  shows "outcome e bad s r s'"
proof -
  from assms(1) have r: "r = r0" and t: "trace s' = trace s @ [ev]" "db_log s' = db_log s"
    by (auto simp: call_apply)
  show ?thesis
  proof (cases r0)
    case (Inl err)
    with assms(2) r t show ?thesis by (simp add: outcome_Inl stops_call)
  next
    case (Inr x)
    with assms(2) r t show ?thesis by (simp add: outcome_Inr clean_step_event)
  qed
qed

lemma db_guard_outcome:
  assumes "db_guard e op s = (r, s')" and "db_fault e op \<Longrightarrow> bad op"
  shows "outcome e bad s r s'"
  using assms
  by (auto simp: db_guard_apply outcome_def split: if_splits
      intro!: stops_op[where op = op] clean_step_op[where op = op])

lemmas verdict_defs = getattr_def resolved_def call_ok_def call_error_def module_call_def
  module_raised_def returned_def raised_def

lemma submitter_verdict:
  assumes "getattr (resolved e n) submitter_is_finished = Some g"
  shows "case g uuid q of Inl err \<Rightarrow> call_error e (Call_submitter_is_finished n uuid q) = Some err
         | Inr x \<Rightarrow> call_ok e (Call_submitter_is_finished n uuid q)"
  using assms by (auto simp: verdict_defs split: option.splits sum.splits)

lemma assessment_verdict:
  assumes "getattr (resolved e n) assessment_is_finished = Some g"
  shows "case g uuid q of Inl err \<Rightarrow> call_error e (Call_assessment_is_finished n uuid q) = Some err
         | Inr x \<Rightarrow> call_ok e (Call_assessment_is_finished n uuid q)"
  using assms by (auto simp: verdict_defs split: option.splits sum.splits)

lemma get_score_verdict:
  assumes "getattr (resolved e n) get_score = Some g"
  shows "case g uuid q of Inl err \<Rightarrow> call_error e (Call_get_score n uuid q) = Some err
         | Inr x \<Rightarrow> call_ok e (Call_get_score n uuid q)"
  using assms by (auto simp: verdict_defs split: option.splits sum.splits)

lemma on_start_verdict:
  assumes "getattr (resolved e n) on_start = Some g"
  shows "case g uuid of Inl err \<Rightarrow> call_error e (Call_on_start n uuid) = Some err
         | Inr x \<Rightarrow> call_ok e (Call_on_start n uuid)"
  using assms by (auto simp: verdict_defs split: option.splits sum.splits)

lemma on_init_verdict:
  assumes "getattr (resolved e n) on_init = Some g"
  shows "case g uuid q of Inl err \<Rightarrow> call_error e (Call_on_init n uuid q) = Some err
         | Inr x \<Rightarrow> call_ok e (Call_on_init n uuid q)"
  using assms by (auto simp: verdict_defs split: option.splits sum.splits)

lemma finished_outcome:
  assumes "finished f ev uuid q s = (r, s')"
    and "\<And>g. f = Some g \<Longrightarrow>
           (case g uuid q of Inl err \<Rightarrow> call_error e ev = Some err | Inr x \<Rightarrow> call_ok e ev)"
  shows "outcome e bad s r s'"
proof (cases f)
  case None
  with assms(1) show ?thesis by (simp add: finished_def outcome_ret)
next
  case (Some g)
  with assms(1) have "call ev (g uuid q) s = (r, s')" by (simp add: finished_def)
  then show ?thesis using assms(2)[OF Some] by (rule call_outcome)
qed

lemma now_outcome: "now s = (r, s') \<Longrightarrow> outcome e bad s r s'"
  by (auto simp: now_apply outcome_def clean_step_refl)

lemma check_submitter_outcome:
  assumes "check_submitter (getattr (resolved e (name st)) submitter_is_finished) uuid q st s = (r, s')"
  shows "outcome e bad s r s'"
proof (cases "is_submitter_complete st")
  case True
  with assms show ?thesis by (simp add: check_submitter_def outcome_ret)
next
  case False
  with assms have "bind (finished (getattr (resolved e (name st)) submitter_is_finished)
                   (Call_submitter_is_finished (name st) uuid q) uuid q)
             (\<lambda>b. if b then bind now (\<lambda>t. ret (st\<lparr>submitter_completed_at := Some t\<rparr>, True))
                   else ret (st, False)) s = (r, s')"
    by (simp add: check_submitter_def)
  then show ?thesis
  proof (rule outcome_bind)
    fix r1 s1
    assume "finished (getattr (resolved e (name st)) submitter_is_finished)
              (Call_submitter_is_finished (name st) uuid q) uuid q s = (r1, s1)"
    then show "outcome e bad s r1 s1"
      by (rule finished_outcome) (rule submitter_verdict)
  next
    fix b s1
    assume "(if b then bind now (\<lambda>t. ret (st\<lparr>submitter_completed_at := Some t\<rparr>, True))
             else ret (st, False)) s1 = (r, s')"
    then show "outcome e bad s1 r s'"
      by (auto simp: bind_apply now_apply ret_def outcome_def clean_step_refl split: if_splits)
  qed
qed

lemma check_submitter_name:
  "check_submitter f uuid q st s = (Inr x, s') \<Longrightarrow> name (fst x) = name st"
  by (auto simp: check_submitter_def bind_apply finished_apply now_apply ret_def
      split: if_splits option.splits sum.splits)

lemma check_assessment_outcome:
  assumes "check_assessment (getattr (resolved e (name (fst r1))) assessment_is_finished) uuid q r1 s
             = (r, s')"
  shows "outcome e bad s r s'"
proof (cases "is_assessment_complete (fst r1)")
  case True
  with assms show ?thesis by (simp add: check_assessment_def outcome_ret)
next
  case False
  with assms have "bind (finished (getattr (resolved e (name (fst r1))) assessment_is_finished)
                   (Call_assessment_is_finished (name (fst r1)) uuid q) uuid q)
             (\<lambda>b. if b then bind now (\<lambda>t. ret ((fst r1)\<lparr>assessment_completed_at := Some t\<rparr>, True))
                   else ret (fst r1, snd r1)) s = (r, s')"
    by (simp add: check_assessment_def)
  then show ?thesis
  proof (rule outcome_bind)
    fix r2 s1
    assume "finished (getattr (resolved e (name (fst r1))) assessment_is_finished)
              (Call_assessment_is_finished (name (fst r1)) uuid q) uuid q s = (r2, s1)"
    then show "outcome e bad s r2 s1"
      by (rule finished_outcome) (rule assessment_verdict)
  next
    fix b s1
    assume "(if b then bind now (\<lambda>t. ret ((fst r1)\<lparr>assessment_completed_at := Some t\<rparr>, True))
             else ret (fst r1, snd r1)) s1 = (r, s')"
    then show "outcome e bad s1 r s'"
      by (auto simp: bind_apply now_apply ret_def outcome_def clean_step_refl split: if_splits)
  qed
qed

lemma save_step_outcome:
  assumes "save_step e obj s = (r, s')" and "\<And>op. db_fault e op \<Longrightarrow> bad op"
  shows "outcome e bad s r s'"
  using assms
  by (auto simp: save_step_apply outcome_def split: if_splits
      intro!: stops_op[where op = "Update_step (fst obj)"] clean_step_op[where op = "Update_step (fst obj)"])

lemma update_outcome:
  assumes run: "update e uuid rq obj s = (r, s')" and dbf: "\<And>op. db_fault e op \<Longrightarrow> bad op"
  shows "outcome e bad s r s'"
proof -
  let ?st = "snd obj"
  let ?q = "step_reqs_of rq (name ?st)"
  from run have "bind (api e ?st) (\<lambda>a1.
      bind (api e ?st) (\<lambda>a2.
      bind (check_submitter (getattr a1 submitter_is_finished) uuid ?q ?st) (\<lambda>r1.
      bind (check_assessment (getattr a2 assessment_is_finished) uuid ?q r1) (\<lambda>r2.
      bind (if snd r2 then save_step e (fst obj, fst r2) else ret ()) (\<lambda>_.
      ret (fst obj, fst r2)))))) s = (r, s')"
    by (simp add: update_def Let_def)
  then show ?thesis
  proof (rule outcome_bind)
    fix r1 s1 assume "api e ?st s = (r1, s1)"
    then show "outcome e bad s r1 s1" by (rule api_outcome)
  next
    fix a1 s1
    assume a1: "api e ?st s = (Inr a1, s1)"
    assume "bind (api e ?st) (\<lambda>a2.
      bind (check_submitter (getattr a1 submitter_is_finished) uuid ?q ?st) (\<lambda>r1.
      bind (check_assessment (getattr a2 assessment_is_finished) uuid ?q r1) (\<lambda>r2.
      bind (if snd r2 then save_step e (fst obj, fst r2) else ret ()) (\<lambda>_.
      ret (fst obj, fst r2))))) s1 = (r, s')"
    then show "outcome e bad s1 r s'"
    proof (rule outcome_bind)
      fix r1 s2 assume "api e ?st s1 = (r1, s2)"
      then show "outcome e bad s1 r1 s2" by (rule api_outcome)
    next
      fix a2 s2
      assume a2: "api e ?st s1 = (Inr a2, s2)"
      assume "bind (check_submitter (getattr a1 submitter_is_finished) uuid ?q ?st) (\<lambda>r1.
        bind (check_assessment (getattr a2 assessment_is_finished) uuid ?q r1) (\<lambda>r2.
        bind (if snd r2 then save_step e (fst obj, fst r2) else ret ()) (\<lambda>_.
        ret (fst obj, fst r2)))) s2 = (r, s')"
      then show "outcome e bad s2 r s'"
      proof (rule outcome_bind)
        fix r1 s3
        assume "check_submitter (getattr a1 submitter_is_finished) uuid ?q ?st s2 = (r1, s3)"
        then show "outcome e bad s2 r1 s3"
          unfolding api_resolved[OF a1] by (rule check_submitter_outcome)
      next
        fix r1 s3
        assume c: "check_submitter (getattr a1 submitter_is_finished) uuid ?q ?st s2 = (Inr r1, s3)"
        note nm = check_submitter_name[OF c]
        assume "bind (check_assessment (getattr a2 assessment_is_finished) uuid ?q r1) (\<lambda>r2.
          bind (if snd r2 then save_step e (fst obj, fst r2) else ret ()) (\<lambda>_.
          ret (fst obj, fst r2))) s3 = (r, s')"
        then show "outcome e bad s3 r s'"
        proof (rule outcome_bind)
          fix r2 s4
          assume "check_assessment (getattr a2 assessment_is_finished) uuid ?q r1 s3 = (r2, s4)"
          then have "check_assessment (getattr (resolved e (name (fst r1))) assessment_is_finished)
                       uuid ?q r1 s3 = (r2, s4)"
            by (simp add: api_resolved[OF a2] nm)
          then show "outcome e bad s3 r2 s4" by (rule check_assessment_outcome)
        next
          fix r2 s4
          assume "bind (if snd r2 then save_step e (fst obj, fst r2) else ret ()) (\<lambda>_.
            ret (fst obj, fst r2)) s4 = (r, s')"
          then show "outcome e bad s4 r s'"
          proof (rule outcome_bind)
            fix r3 s5
            assume "(if snd r2 then save_step e (fst obj, fst r2) else ret ()) s4 = (r3, s5)"
            then show "outcome e bad s4 r3 s5"
              using dbf by (auto split: if_splits intro: save_step_outcome outcome_ret)
          next
            fix u s5
            assume "ret (fst obj, fst r2) s5 = (r, s')"
            then show "outcome e bad s5 r s'" by (rule outcome_ret)
          qed
        qed
      qed
    qed
  qed
qed


lemma if_run:
  assumes "(if c then m else n) s = (r, s')"
  obtains "c" "m s = (r, s')" | "\<not> c" "n s = (r, s')"
  using assms by (cases c) auto

lemma select_steps_outcome:
  assumes "select_steps e p s = (r, s')" and "\<And>op. db_fault e op \<Longrightarrow> bad op"
  shows "outcome e bad s r s'"
  using assms
  by (auto simp: select_steps_apply outcome_def split: if_splits
      intro!: stops_op[where op = Select_steps] clean_step_op[where op = Select_steps])

lemma insert_step_outcome:
  assumes "insert_step e st s = (r, s')" and "\<And>op. db_fault e op \<Longrightarrow> bad op"
  shows "outcome e bad s r s'"
  using assms
  by (auto simp: insert_step_apply outcome_def split: if_splits
      intro!: stops_op[where op = "Insert_step (name st)"] clean_step_op[where op = "Insert_step (name st)"])

lemma save_workflow_outcome:
  assumes "save_workflow e s = (r, s')" and "\<And>op. db_fault e op \<Longrightarrow> bad op"
  shows "outcome e bad s r s'"
  using assms
  by (auto simp: save_workflow_apply outcome_def split: if_splits
      intro!: stops_op[where op = Update_workflow] clean_step_op[where op = Update_workflow])

lemma set_status_outcome: "set_status v s = (r, s') \<Longrightarrow> outcome e bad s r s'"
  by (auto simp: set_status_apply outcome_def clean_step_refl)

lemma emit_log_outcome: "emit (Log level msg) s = (r, s') \<Longrightarrow> outcome e bad s r s'"
  by (auto simp: emit_apply outcome_def call_ok_def intro!: clean_step_event[where ev = "Log level msg"])

lemma STATUS_outcome:
  assumes "STATUS e n s = (r, s')" and "n = ''peer'' \<or> n = ''self''"
  shows "outcome e bad s r s'"
proof (cases r)
  case (Inr x)
  with assms show ?thesis by (auto simp: STATUS_apply outcome_def clean_step_refl split: if_splits)
next
  case (Inl err)
  with assms have "s' = s" "config_error e err"
    by (auto simp: STATUS_apply config_error_def split: if_splits)
  then show ?thesis using Inl by (simp add: outcome_Inl stops_config)
qed

lemma get_steps_outcome:
  assumes run: "get_steps e s = (r, s')" and dbf: "\<And>op. db_fault e op \<Longrightarrow> bad op"
  shows "outcome e bad s r s'"
  using run unfolding get_steps_def
  by (elim outcome_bind if_run)
    (erule select_steps_outcome insert_step_outcome STATUS_outcome outcome_ret, (erule dbf | simp)?)+

lemma update_steps_outcome:
  assumes dbf: "\<And>op. db_fault e op \<Longrightarrow> bad op"
  shows "update_steps e uuid rq xs s = (r, s') \<Longrightarrow> outcome e bad s r s'"
proof (induction xs arbitrary: s r s')
  case Nil
  then show ?case by (simp add: outcome_ret)
next
  case (Cons x xs)
  from Cons.prems
  have "bind (update e uuid rq x) (\<lambda>x'. bind (update_steps e uuid rq xs) (\<lambda>xs'. ret (x' # xs'))) s
          = (r, s')"
    by simp
  then show ?case
    by (elim outcome_bind) (erule update_outcome Cons.IH outcome_ret, (erule dbf)?)+
qed


lemma option_run:
  assumes "(case x of None \<Rightarrow> m | Some y \<Rightarrow> n y) s = (r, s')"
  obtains "x = None" "m s = (r, s')" | y where "x = Some y" "n y s = (r, s')"
  using assms by (cases x) auto

lemma notify_start_outcome:
  assumes "notify_start e uuid target s = (r, s')"
  shows "outcome e bad s r s'"
proof (cases target)
  case None
  with assms show ?thesis by (simp add: notify_start_def outcome_ret)
next
  case (Some x)
  with assms have "bind (api e (snd x)) (\<lambda>a.
            case getattr a on_start of
              None \<Rightarrow> ret ()
            | Some f \<Rightarrow> call (Call_on_start (name (snd x)) uuid) (f uuid)) s = (r, s')"
    by (simp add: notify_start_def)
  then show ?thesis
  proof (rule outcome_bind)
    fix r1 s1 assume "api e (snd x) s = (r1, s1)"
    then show "outcome e bad s r1 s1" by (rule api_outcome)
  next
    fix a s1
    assume a: "api e (snd x) s = (Inr a, s1)"
    assume "(case getattr a on_start of
              None \<Rightarrow> ret ()
            | Some f \<Rightarrow> call (Call_on_start (name (snd x)) uuid) (f uuid)) s1 = (r, s')"
    then show "outcome e bad s1 r s'"
    proof (cases rule: option_run)
      case 1
      then show ?thesis by (simp add: outcome_ret)
    next
      case (2 f)
      from 2(2) show ?thesis
        by (rule call_outcome) (rule on_start_verdict, simp add: 2(1)[unfolded api_resolved[OF a]])
    qed
  qed
qed

lemma find_score_outcome:
  assumes names: "\<And>n x. d n = Some x \<Longrightarrow> name (snd x) = n"
  shows "find_score e uuid rq d ns s = (r, s') \<Longrightarrow> outcome e bad s r s'"
proof (induction ns arbitrary: s)
  case Nil
  then show ?case by (simp add: outcome_ret)
next
  case (Cons n ns)
  show ?case
  proof (cases "d n")
    case None
    with Cons show ?thesis by simp
  next
    case (Some x)
    with names have nx: "name (snd x) = n" by blast
    from Cons.prems Some have "bind (api e (snd x)) (\<lambda>a.
            case getattr a get_score of
              None \<Rightarrow> find_score e uuid rq d ns
            | Some f \<Rightarrow> call (Call_get_score n uuid (step_reqs_of rq n)) (f uuid (step_reqs_of rq n))) s
          = (r, s')"
      by simp
    then show ?thesis
    proof (rule outcome_bind)
      fix r1 s1 assume "api e (snd x) s = (r1, s1)"
      then show "outcome e bad s r1 s1" by (rule api_outcome)
    next
      fix a s1
      assume a: "api e (snd x) s = (Inr a, s1)"
      assume "(case getattr a get_score of
              None \<Rightarrow> find_score e uuid rq d ns
            | Some f \<Rightarrow> call (Call_get_score n uuid (step_reqs_of rq n)) (f uuid (step_reqs_of rq n))) s1
          = (r, s')"
      then show "outcome e bad s1 r s'"
      proof (cases rule: option_run)
        case 1
        then show ?thesis by (simp add: Cons.IH)
      next
        case (2 f)
        from 2(2) show ?thesis
          by (rule call_outcome)
            (rule get_score_verdict, simp add: 2(1)[unfolded api_resolved[OF a] nx])
      qed
    qed
  qed
qed

lemma set_score_outcome:
  assumes "set_score e uuid sc s = (r, s')"
  shows "outcome e bad s r s'"
  using assms unfolding set_score_def
  by (rule call_outcome) (simp add: verdict_defs split: sum.splits)

lemma try_score_outcome:
  assumes "try_score e uuid rq xs n s = (r, s')"
  shows "outcome e bad s r s'"
  using assms unfolding try_score_def
  by (elim outcome_bind if_run option_run)
    (erule find_score_outcome[rotated] set_score_outcome outcome_ret, (erule step_for_name_SomeD[THEN conjunct2])?)+

lemma store_status_outcome:
  assumes run: "store_status e ns s = (r, s')" and dbf: "\<And>op. db_fault e op \<Longrightarrow> bad op"
  shows "outcome e bad s r s'"
proof (cases "status (self s) \<noteq> ns")
  case False
  with run show ?thesis by (simp add: store_status_def outcome_ret)
next
  case True
  with run have "bind (set_status ns) (\<lambda>_.
               bind (save_workflow e) (\<lambda>_.
               emit (Log Info (Status_updated (submission_uuid (self s)) ns)))) s = (r, s')"
    by (simp add: store_status_def)
  then show ?thesis
    by (elim outcome_bind)
      (erule set_status_outcome save_workflow_outcome emit_log_outcome, (erule dbf)?)+
qed

lemma update_from_assessments_outcome:
  assumes run: "update_from_assessments e rq s = (r, s')" and dbf: "\<And>op. db_fault e op \<Longrightarrow> bad op"
  shows "outcome e bad s r s'"
proof (cases "status (self s) = ''done''")
  case True
  with run show ?thesis by (simp add: update_from_assessments_def outcome_ret)
next
  case False
  let ?uuid = "submission_uuid (self s)"
  from False run have "bind (get_steps e) (\<lambda>fetched.
            bind (update_steps e ?uuid rq fetched) (\<lambda>xs.
            bind (notify_start e ?uuid (step_for_name xs (first_incomplete xs))) (\<lambda>_.
            bind (try_score e ?uuid rq xs (first_incomplete xs)) (\<lambda>new_status.
            store_status e new_status)))) s = (r, s')"
    by (simp add: update_from_assessments_def Let_def)
  then show ?thesis
    by (elim outcome_bind)
      (erule get_steps_outcome update_steps_outcome[rotated] notify_start_outcome try_score_outcome
         store_status_outcome, (erule dbf)?)+
qed

lemma add_steps_outcome:
  assumes dbf: "\<And>op. db_fault e op \<Longrightarrow> bad op"
  shows "add_steps e ns i s = (r, s') \<Longrightarrow> outcome e bad s r s'"
proof (induction ns arbitrary: i s r s')
  case Nil
  then show ?case by (simp add: outcome_ret)
next
  case (Cons n ns)
  from Cons.prems
  have "bind (insert_step e (new_step n i)) (\<lambda>x.
     bind (add_steps e ns (Suc i)) (\<lambda>xs. ret (x # xs))) s = (r, s')"
    by simp
  then show ?case
    by (elim outcome_bind) (erule insert_step_outcome Cons.IH outcome_ret, (erule dbf)?)+
qed


lemma init_steps_outcome:
  assumes dbf: "\<And>op. db_fault e op \<Longrightarrow> bad op"
  shows "init_steps e uuid params xs started s = (r, s') \<Longrightarrow> outcome e bad s r s'"
proof (induction xs arbitrary: started s r s')
  case Nil
  then show ?case by (simp add: outcome_ret)
next
  case (Cons x xs)
  let ?n = "name (snd x)"
  let ?rest = "\<lambda>a. case a of
         None \<Rightarrow> init_steps e uuid params xs started
       | Some m \<Rightarrow>
           bind (case on_init m of
                   None \<Rightarrow> ret ()
                 | Some f \<Rightarrow> call (Call_on_init ?n uuid (dict_get params ?n [])) (f uuid (dict_get params ?n []))) (\<lambda>_.
           if \<not> started then
             bind (set_status ?n) (\<lambda>_.
             bind (save_workflow e) (\<lambda>_.
             bind (case on_start m of
                     None \<Rightarrow> ret ()
                   | Some f \<Rightarrow> call (Call_on_start ?n uuid) (f uuid)) (\<lambda>_.
             init_steps e uuid params xs True)))
           else init_steps e uuid params xs started)"
  from Cons.prems have "bind (api e (snd x)) ?rest s = (r, s')" by simp
  then show ?case
  proof (rule outcome_bind)
    fix r1 s1 assume "api e (snd x) s = (r1, s1)"
    then show "outcome e bad s r1 s1" by (rule api_outcome)
  next
    fix a s1
    assume a: "api e (snd x) s = (Inr a, s1)" and rest: "?rest a s1 = (r, s')"
    note res = api_resolved[OF a]
    show "outcome e bad s1 r s'"
    proof (cases a)
      case None
      with rest show ?thesis by (simp add: Cons.IH)
    next
      case (Some m)
      have oi: "getattr (resolved e ?n) on_init = Some f" if "on_init m = Some f" for f
        using that Some res by (simp add: getattr_def)
      have os: "getattr (resolved e ?n) on_start = Some f" if "on_start m = Some f" for f
        using that Some res by (simp add: getattr_def)
      from rest Some have "bind (case on_init m of
                   None \<Rightarrow> ret ()
                 | Some f \<Rightarrow> call (Call_on_init ?n uuid (dict_get params ?n [])) (f uuid (dict_get params ?n []))) (\<lambda>_.
           if \<not> started then
             bind (set_status ?n) (\<lambda>_.
             bind (save_workflow e) (\<lambda>_.
             bind (case on_start m of
                     None \<Rightarrow> ret ()
                   | Some f \<Rightarrow> call (Call_on_start ?n uuid) (f uuid)) (\<lambda>_.
             init_steps e uuid params xs True)))
           else init_steps e uuid params xs started) s1 = (r, s')"
        by simp
      then show ?thesis
        by (elim outcome_bind if_run option_run)
          (erule outcome_ret set_status_outcome save_workflow_outcome Cons.IH
             call_outcome[OF _ on_init_verdict[OF oi]] call_outcome[OF _ on_start_verdict[OF os]],
           (erule dbf | assumption)?)+
    qed
  qed
qed

lemma start_body_outcome:
  assumes run: "bind (add_steps e step_names 0) (\<lambda>workflow_steps.
           bind (init_steps e uuid params workflow_steps False) (\<lambda>_.
           update_from_assessments e None)) t = (r, t')"
    and dbf: "\<And>op. db_fault e op \<Longrightarrow> bad op"
  shows "outcome e bad t r t'"
  using run
  by (elim outcome_bind)
    (erule add_steps_outcome[rotated] init_steps_outcome[rotated] update_from_assessments_outcome,
      (erule dbf)?)+

text \<open>The outcome of a run reads only the trace and the storage log.\<close>

lemma outcome_transfer:
  assumes "outcome e bad t r t'"
    and "trace s = trace t" "db_log s = db_log t" "trace s' = trace t'" "db_log s' = db_log t'"
    and "case r of Inl err \<Rightarrow> r' = Inl err | Inr x \<Rightarrow> returned r'"
  shows "outcome e bad s r' s'"
  using assms
  by (cases r; cases r') (simp_all add: outcome_def clean_step_def stops_with_def returned_def)

lemma with_row_outcome:
  assumes run: "with_row w row m s = (r, s')"
    and inner: "\<And>t r0 t'. m t = (r0, t') \<Longrightarrow> outcome e bad t r0 t'"
  shows "outcome e bad s r s'"
proof -
  let ?t = "\<lparr>clock = clock s, trace = trace s, db_log = db_log s, self = w,
             stored_status = row_status row, steps = row_steps row\<rparr>"
  obtain r0 t' where m: "m ?t = (r0, t')" by (cases "m ?t")
  with run have "trace s' = trace t'" "db_log s' = db_log t'"
    "case r0 of Inl err \<Rightarrow> r = Inl err | Inr x \<Rightarrow> returned r"
    by (auto simp: with_row_def returned_def split: sum.splits)
  with inner[OF m] show ?thesis
    by (rule_tac outcome_transfer[where t = ?t and t' = t' and r = r0]) simp_all
qed

lemma objects_create_outcome:
  assumes "objects_create e uuid sub s = (r, s')"
    and "\<And>op. db_fault e op \<Longrightarrow> bad op" and "workflows s uuid \<noteq> None \<Longrightarrow> bad (Insert_workflow uuid)"
  shows "outcome e bad s r s'"
  using assms
  by (auto simp: objects_create_apply outcome_def split: if_splits
      intro!: stops_op[where op = "Insert_workflow uuid"] clean_step_op[where op = "Insert_workflow uuid"])

lemma lookup_outcome:
  assumes "call (Call_get_submission_and_student uuid) (sub_api_get_submission_and_student e uuid) s
             = (r, s')"
  shows "outcome e bad s r s'"
  using assms by (rule call_outcome) (simp add: verdict_defs split: sum.splits)

lemma start_workflow_outcome:
  assumes run: "start_workflow e uuid step_names on_init_params s = (r, s')"
  shows "outcome e (\<lambda>op. db_fault e op \<or> op = Insert_workflow uuid \<and> workflows s uuid \<noteq> None) s r s'"
proof -
  let ?bad = "\<lambda>op. db_fault e op \<or> op = Insert_workflow uuid \<and> workflows s uuid \<noteq> None"
  let ?body = "bind (call (Call_get_submission_and_student uuid) (sub_api_get_submission_and_student e uuid))
          (\<lambda>submission_dict.
        bind (objects_create e uuid submission_dict) (\<lambda>created.
        bind (with_row (fst created) (snd created)
                (bind (add_steps e step_names 0) (\<lambda>workflow_steps.
                 bind (init_steps e uuid on_init_params workflow_steps False) (\<lambda>_.
                 update_from_assessments e None)))) (\<lambda>r.
        ret (snd r))))"
  obtain sb where body: "?body s = (r, sb)" and tr: "trace s' = trace sb" "db_log s' = db_log sb"
    using run by (auto simp: start_workflow_def commit_on_success_def split: prod.splits sum.splits)
  from body have "outcome e ?bad s r sb"
  proof (rule outcome_bind)
    fix r1 s1
    assume "call (Call_get_submission_and_student uuid) (sub_api_get_submission_and_student e uuid) s
              = (r1, s1)"
    then show "outcome e ?bad s r1 s1" by (rule lookup_outcome)
  next
    fix sub s1
    assume "call (Call_get_submission_and_student uuid) (sub_api_get_submission_and_student e uuid) s
              = (Inr sub, s1)"
    then have w: "workflows s1 = workflows s" by (auto simp: call_apply)
    assume "bind (objects_create e uuid sub) (\<lambda>created.
        bind (with_row (fst created) (snd created)
                (bind (add_steps e step_names 0) (\<lambda>workflow_steps.
                 bind (init_steps e uuid on_init_params workflow_steps False) (\<lambda>_.
                 update_from_assessments e None)))) (\<lambda>r.
        ret (snd r))) s1 = (r, sb)"
    then show "outcome e ?bad s1 r sb"
      by (elim outcome_bind)
        (erule objects_create_outcome with_row_outcome start_body_outcome outcome_ret,
          (simp add: w)?, (simp add: w)?)+
  qed
  then show ?thesis
    by (rule outcome_transfer) (simp_all add: tr returned_def split: sum.splits)
qed



text \<open>
  C7. \<open>start_workflow\<close> is atomic, and the error it raises is the error of the first
  operation that failed. Whenever it raises, the workflow table is what it was before the
  call, and the run stopped at its last operation: every call recorded before the last
  returned and every storage operation before the last worked, and the exception raised
  is the exception of the last recorded call (the lookup, a module's \<open>on_init\<close> or
  \<open>on_start\<close>, a completion test, a score, \<open>set_score\<close>), or the \<open>DatabaseError\<close> of the
  last storage operation, which failed (the insertion of a workflow for a submission
  UUID that has one fails too), or, all calls and storage operations having worked, an
  exception of the configuration. A failed submission lookup is the error the caller
  gets. And it returns a workflow only if nothing failed on the way: every call it made
  returned, every storage operation it attempted worked, and the module of every
  configured step name loaded; then the new workflow is stored under a submission UUID
  that had none, and no other workflow is touched.
\<close>

theorem start_workflow_atomic:
  assumes run: "start_workflow e uuid step_names on_init_params s = (r, s')"
  shows "(\<forall>err. r = Inl err \<longrightarrow>
            workflows s' = workflows s \<and>
            stops_with e (\<lambda>op. db_fault e op \<or> op = Insert_workflow uuid \<and> workflows s uuid \<noteq> None)
              s s' err) \<and>
         (\<forall>err. sub_api_get_submission_and_student e uuid = Inl err \<longrightarrow> r = Inl err) \<and>
         (\<forall>w. r = Inr w \<longrightarrow>
            list_all (call_ok e) (drop (length (trace s)) (trace s')) \<and>
            list_all (\<lambda>op. \<not> db_fault e op) (drop (length (db_log s)) (db_log s')) \<and>
            list_all (loadable e) step_names \<and>
            workflows s uuid = None \<and> workflows s' uuid \<noteq> None \<and>
            (\<forall>other. other \<noteq> uuid \<longrightarrow> workflows s' other = workflows s other))"
proof (intro conjI allI impI)
  fix err assume "r = Inl err"
  with run show "workflows s' = workflows s"
    by (auto simp: start_workflow_def commit_on_success_def split: prod.splits sum.splits)
next
  fix err assume "r = Inl err"
  with start_workflow_outcome[OF run]
  show "stops_with e (\<lambda>op. db_fault e op \<or> op = Insert_workflow uuid \<and> workflows s uuid \<noteq> None)
          s s' err"
    by (simp add: outcome_Inl)
next
  fix err assume "sub_api_get_submission_and_student e uuid = Inl err"
  with run show "r = Inl err"
    by (auto simp: start_workflow_def commit_on_success_def bind_apply call_apply)
next
  fix w assume ok: "r = Inr w"
  let ?inner = "bind (add_steps e step_names 0) (\<lambda>workflow_steps.
           bind (init_steps e uuid on_init_params workflow_steps False) (\<lambda>_.
           update_from_assessments e None))"
  from run ok obtain sub s0 created s1 rr where
    c: "call (Call_get_submission_and_student uuid) (sub_api_get_submission_and_student e uuid) s
          = (Inr sub, s0)" and
    o: "objects_create e uuid sub s0 = (Inr created, s1)" and
    w: "with_row (fst created) (snd created) ?inner s1 = (Inr rr, s')"
    by (auto simp: start_workflow_def commit_on_success_def bind_Inr_iff ret_def
        split: prod.splits sum.splits)
  from c have c0: "clean_step e s s0" and w0: "workflows s0 = workflows s"
    by (auto simp: call_apply clean_step_def call_ok_def returned_def)
  from o have c1: "clean_step e s0 s1" and fresh: "workflows s0 uuid = None"
    and w1: "workflows s1 = (workflows s0)(uuid \<mapsto> snd created)"
    and id: "submission_uuid (fst created) = uuid"
    by (auto simp: objects_create_apply clean_step_def instance_of_def split: if_splits)
  let ?t = "\<lparr>clock = clock s1, trace = trace s1, db_log = db_log s1, self = fst created,
             stored_status = row_status (snd created), steps = row_steps (snd created)\<rparr>"
  from w obtain u t' where
    inner: "?inner ?t = (Inr u, t')" and
    tr: "trace s' = trace t'" "db_log s' = db_log t'" and
    ws: "workflows s' = (workflows s1)(uuid \<mapsto>
           (snd created)\<lparr>row_status := stored_status t', row_steps := steps t'\<rparr>)"
    by (auto simp: with_row_def id split: prod.splits sum.splits)
  from start_body_clean[OF inner] have ct: "clean_step e ?t t'" and l: "list_all (loadable e) step_names"
    by simp_all
  from ct tr have c2: "clean_step e s1 s'" by (simp add: clean_step_def)
  note c0 also note c1 also note c2
  finally have "clean_step e s s'" .
  from clean_step_drop[OF this] l fresh w0 w1 ws
  show "list_all (call_ok e) (drop (length (trace s)) (trace s'))"
    and "list_all (\<lambda>op. \<not> db_fault e op) (drop (length (db_log s)) (db_log s'))"
    and "list_all (loadable e) step_names"
    and "workflows s uuid = None" and "workflows s' uuid \<noteq> None"
    and "\<And>other. other \<noteq> uuid \<Longrightarrow> workflows s' other = workflows s other"
    by simp_all
qed

theorem start_workflow_atomic_witness:
  "stops_with broken_env
     (\<lambda>op. db_fault broken_env op \<or> op = Insert_workflow ''u1'' \<and> workflows state0 ''u1'' \<noteq> None)
     state0 (snd (start_workflow broken_env ''u1'' [''peer'', ''self''] Map.empty state0))
     (ModuleError ''boom'') \<and>
   fst (start_workflow default_env ''u1'' [''peer'', ''self''] Map.empty state0)
     = Inr \<lparr>submission_uuid = ''u1'', status = ''peer'', course_id = ''c'', item_id = ''i''\<rparr> \<and>
   workflows state0 ''u1'' = None \<and>
   workflows (snd (start_workflow default_env ''u1'' [''peer'', ''self''] Map.empty state0)) ''u1''
     = Some \<lparr>row_status = ''peer'', row_course_id = ''c'', row_item_id = ''i'',
             row_steps = [new_step ''peer'' 0,
                          (new_step ''self'' 1)\<lparr>submitter_completed_at := Some 0,
                                                assessment_completed_at := Some 1\<rparr>]\<rparr> \<and>
   sub_api_get_submission_and_student default_env ''u2'' = Inl SubmissionNotFoundError \<and>
   fst (start_workflow default_env ''u2'' [''peer'', ''self''] Map.empty state0) = Inl SubmissionNotFoundError \<and>
   workflows (snd (start_workflow default_env ''u2'' [''peer'', ''self''] Map.empty state0)) = workflows state0 \<and>
   fst (start_workflow broken_env ''u1'' [''peer'', ''self''] Map.empty state0) = Inl (ModuleError ''boom'') \<and>
   last (trace (snd (start_workflow broken_env ''u1'' [''peer'', ''self''] Map.empty state0)))
     = Call_on_start ''peer'' ''u1'' \<and>
   call_error broken_env (Call_on_start ''peer'' ''u1'') = Some (ModuleError ''boom'') \<and>
   db_log (snd (start_workflow broken_env ''u1'' [''peer'', ''self''] Map.empty state0))
     = [Insert_workflow ''u1'', Insert_step ''peer'', Insert_step ''self'', Update_workflow] \<and>
   workflows (snd (start_workflow broken_env ''u1'' [''peer'', ''self''] Map.empty state0)) = workflows state0 \<and>
   fst (start_workflow default_env ''u1'' [''peer'', ''self''] Map.empty stored_state) = Inl DatabaseError \<and>
   db_log (snd (start_workflow default_env ''u1'' [''peer'', ''self''] Map.empty stored_state))
     = [Insert_workflow ''u1''] \<and>
   workflows (snd (start_workflow default_env ''u1'' [''peer'', ''self''] Map.empty stored_state))
     = workflows stored_state \<and>
   fst (start_workflow faulty_env ''u1'' [''peer'', ''self''] Map.empty state0) = Inl DatabaseError \<and>
   db_log (snd (start_workflow faulty_env ''u1'' [''peer'', ''self''] Map.empty state0))
     = [Insert_workflow ''u1''] \<and>
   workflows (snd (start_workflow faulty_env ''u1'' [''peer'', ''self''] Map.empty state0)) = workflows state0"
proof -
  have ev: "fst (start_workflow default_env ''u1'' [''peer'', ''self''] Map.empty state0)
     = Inr \<lparr>submission_uuid = ''u1'', status = ''peer'', course_id = ''c'', item_id = ''i''\<rparr> \<and>
   workflows state0 ''u1'' = None \<and>
   workflows (snd (start_workflow default_env ''u1'' [''peer'', ''self''] Map.empty state0)) ''u1''
     = Some \<lparr>row_status = ''peer'', row_course_id = ''c'', row_item_id = ''i'',
             row_steps = [new_step ''peer'' 0,
                          (new_step ''self'' 1)\<lparr>submitter_completed_at := Some 0,
                                                assessment_completed_at := Some 1\<rparr>]\<rparr> \<and>
   sub_api_get_submission_and_student default_env ''u2'' = Inl SubmissionNotFoundError \<and>
   fst (start_workflow default_env ''u2'' [''peer'', ''self''] Map.empty state0) = Inl SubmissionNotFoundError \<and>
   fst (start_workflow broken_env ''u1'' [''peer'', ''self''] Map.empty state0) = Inl (ModuleError ''boom'') \<and>
   last (trace (snd (start_workflow broken_env ''u1'' [''peer'', ''self''] Map.empty state0)))
     = Call_on_start ''peer'' ''u1'' \<and>
   call_error broken_env (Call_on_start ''peer'' ''u1'') = Some (ModuleError ''boom'') \<and>
   db_log (snd (start_workflow broken_env ''u1'' [''peer'', ''self''] Map.empty state0))
     = [Insert_workflow ''u1'', Insert_step ''peer'', Insert_step ''self'', Update_workflow] \<and>
   fst (start_workflow default_env ''u1'' [''peer'', ''self''] Map.empty stored_state) = Inl DatabaseError \<and>
   db_log (snd (start_workflow default_env ''u1'' [''peer'', ''self''] Map.empty stored_state))
     = [Insert_workflow ''u1''] \<and>
   fst (start_workflow faulty_env ''u1'' [''peer'', ''self''] Map.empty state0) = Inl DatabaseError \<and>
   db_log (snd (start_workflow faulty_env ''u1'' [''peer'', ''self''] Map.empty state0))
     = [Insert_workflow ''u1'']"
    by code_simp
  let ?ok = "start_workflow default_env ''u1'' [''peer'', ''self''] Map.empty state0"
  let ?lost = "start_workflow default_env ''u2'' [''peer'', ''self''] Map.empty state0"
  let ?hook = "start_workflow broken_env ''u1'' [''peer'', ''self''] Map.empty state0"
  let ?dup = "start_workflow default_env ''u1'' [''peer'', ''self''] Map.empty stored_state"
  let ?db = "start_workflow faulty_env ''u1'' [''peer'', ''self''] Map.empty state0"
  have r0: "?ok = (fst ?ok, snd ?ok)" and r1: "?lost = (fst ?lost, snd ?lost)"
    and r2: "?hook = (fst ?hook, snd ?hook)" and r3: "?dup = (fst ?dup, snd ?dup)"
    and r4: "?db = (fst ?db, snd ?db)"
    by simp_all
  from ev have f0: "fst ?ok = Inr \<lparr>submission_uuid = ''u1'', status = ''peer'', course_id = ''c'',
                                   item_id = ''i''\<rparr>"
    and f1: "fst ?lost = Inl SubmissionNotFoundError" and f2: "fst ?hook = Inl (ModuleError ''boom'')"
    and f3: "fst ?dup = Inl DatabaseError" and f4: "fst ?db = Inl DatabaseError"
    by (simp_all only: simp_thms)
  note w0 = start_workflow_atomic [OF r0, THEN conjunct2, THEN conjunct2, rule_format, OF f0]
  note w1 = start_workflow_atomic [OF r1, THEN conjunct1, rule_format, OF f1, THEN conjunct1]
  note w2 = start_workflow_atomic [OF r2, THEN conjunct1, rule_format, OF f2, THEN conjunct1]
  note st = start_workflow_atomic [OF r2, THEN conjunct1, rule_format, OF f2, THEN conjunct2]
  note w3 = start_workflow_atomic [OF r3, THEN conjunct1, rule_format, OF f3, THEN conjunct1]
  note w4 = start_workflow_atomic [OF r4, THEN conjunct1, rule_format, OF f4, THEN conjunct1]
  show ?thesis
    by (rule conjI[OF st]) (simp only: ev w0 w1 w2 w3 w4 simp_thms)
qed

(*THMS-END*)
end
